theory Spec2Isabelle
  imports Main "HOL-Library.Word" "HOL-Library.Signed_Division"
begin

unbundle bit_operations_syntax

section \<open>The record store of btrfs-indexer2.c\<close>

text \<open>
  A C string is modelled by the list of its bytes before the terminating NUL.
  \<open>struct file_entry\<close> is a record; the \<open>next\<close> pointer of the singly linked list is the
  tail of a HOL list, so that \<open>file_list\<close> is the list of entries met when following
  \<open>next\<close> from the global head pointer.
\<close>

record file_entry =
  path :: string
  name :: string
  inode :: "64 word"
  size_e :: "64 word"
  mtime :: "64 word"
  mode :: "32 word"

text \<open>
  The process state: the two globals \<open>file_list\<close> and \<open>file_count\<close> (a C \<open>int\<close>, kept as
  a 32-bit word and read with \<open>sint\<close>), and what has been written to the standard output
  and standard error streams so far.
\<close>

record prog =
  file_list :: "file_entry list"
  file_count :: "32 word"
  out :: string
  err :: string

definition init_prog :: prog where
  "init_prog = \<lparr>file_list = [], file_count = 0, out = [], err = []\<rparr>"

text \<open>
  \<open>strncpy(dst, src, n - 1); dst[n - 1] = 0\<close> on a buffer of \<open>n\<close> bytes leaves the first
  \<open>n - 1\<close> bytes of \<open>src\<close> in \<open>dst\<close>.
\<close>

definition strncpy_buf :: "nat \<Rightarrow> string \<Rightarrow> string" where
  "strncpy_buf n src = take (n - 1) src"

definition mk_entry ::
  "string \<Rightarrow> string \<Rightarrow> 64 word \<Rightarrow> 64 word \<Rightarrow> 64 word \<Rightarrow> 32 word \<Rightarrow> file_entry" where
  "mk_entry p n ino sz mt md =
     \<lparr>path = strncpy_buf 4096 p, name = strncpy_buf 256 n,
      inode = ino, size_e = sz, mtime = mt, mode = md\<rparr>"

text \<open>
  \<open>add_file_entry\<close>. The first argument is the answer of \<open>malloc\<close>: \<open>False\<close> when it
  returns NULL.
\<close>

definition add_file_entry ::
  "bool \<Rightarrow> string \<Rightarrow> string \<Rightarrow> 64 word \<Rightarrow> 64 word \<Rightarrow> 64 word \<Rightarrow> 32 word \<Rightarrow> prog \<Rightarrow> prog" where
  "add_file_entry malloc_ok p n ino sz mt md s =
     (if \<not> malloc_ok then s
      else s\<lparr>file_list := mk_entry p n ino sz mt md # file_list s,
             file_count := file_count s + 1\<rparr>)"

section \<open>Formatting\<close>

text \<open>Decimal rendering, as \<open>printf\<close> does for \<open>%lu\<close>, \<open>%u\<close> (unsigned) and \<open>%d\<close>, \<open>%ld\<close> (signed).\<close>

definition digit :: "nat \<Rightarrow> char" where
  "digit d = ''0123456789'' ! d"

fun dec :: "nat \<Rightarrow> string" where
  "dec n = (if n < 10 then [digit n] else dec (n div 10) @ [digit (n mod 10)])"

declare dec.simps [simp del]

definition sdec :: "int \<Rightarrow> string" where
  "sdec i = (if i < 0 then CHR ''-'' # dec (nat (- i)) else dec (nat i))"

text \<open>
  \<open>timestamp_to_iso\<close> casts the timestamp to \<open>time_t\<close> (signed, 64 bits), calls the C
  library's \<open>gmtime\<close> and passes the result to \<open>strftime\<close> without a check. The
  library's part is the parameter \<open>strftime_gmtime\<close>: the text \<open>strftime\<close> writes, or
  \<open>None\<close> when \<open>gmtime\<close> returns NULL (a time whose year does not fit an \<open>int\<close>).
  \<open>strftime\<close> then reads through the NULL pointer and the process is killed; \<open>None\<close>
  is that outcome here too.
\<close>

definition timestamp_to_iso :: "(int \<Rightarrow> string option) \<Rightarrow> 64 word \<Rightarrow> string option" where
  "timestamp_to_iso strftime_gmtime timestamp = strftime_gmtime (sint timestamp)"

text \<open>\<open>S_ISDIR(m)\<close> of Linux's \<open>sys/stat.h\<close>: \<open>(m & S_IFMT) == S_IFDIR\<close>, octal 0170000 and 0040000.\<close>

definition S_ISDIR :: "32 word \<Rightarrow> bool" where
  "S_ISDIR m = (m AND 0xF000 = 0x4000)"

definition bool_str :: "bool \<Rightarrow> string" where
  "bool_str b = (if b then ''true'' else ''false'')"

subsection \<open>The JSON string escaper\<close>

text \<open>
  Whether plain \<open>char\<close> is signed is fixed by the platform's ABI (signed on x86-64 Linux,
  unsigned on ARM Linux); \<open>char_signed\<close> says which. \<open>char_val\<close> is the value of
  \<open>src[i]\<close> after integer promotion.
\<close>

definition char_val :: "bool \<Rightarrow> char \<Rightarrow> int" where
  "char_val char_signed c =
     (if char_signed \<and> 128 \<le> (of_char c :: nat) then int (of_char c) - 256 else int (of_char c))"

text \<open>\<open>size_t\<close> subtraction wraps modulo \<open>2 ^ 64\<close>.\<close>

definition size_t_sub :: "nat \<Rightarrow> nat \<Rightarrow> nat" where
  "size_t_sub a b = (a + 2 ^ 64 - b) mod 2 ^ 64"

text \<open>
  The body of the \<open>switch\<close> for one source byte; \<open>dst\<close> holds the bytes written so far, so
  that \<open>dst_idx = length dst\<close>.
\<close>

definition escape_case :: "bool \<Rightarrow> nat \<Rightarrow> char \<Rightarrow> string \<Rightarrow> string" where
  "escape_case char_signed dst_size c dst =
     (if c = CHR 0x22 then
        (if length dst < size_t_sub dst_size 3 then dst @ [CHR 0x5C, CHR 0x22] else dst)
      else if c = CHR 0x5C then
        (if length dst < size_t_sub dst_size 3 then dst @ [CHR 0x5C, CHR 0x5C] else dst)
      else if c = CHR 0x0A then
        (if length dst < size_t_sub dst_size 3 then dst @ [CHR 0x5C, CHR ''n''] else dst)
      else if c = CHR 0x0D then
        (if length dst < size_t_sub dst_size 3 then dst @ [CHR 0x5C, CHR ''r''] else dst)
      else if c = CHR 0x09 then
        (if length dst < size_t_sub dst_size 3 then dst @ [CHR 0x5C, CHR ''t''] else dst)
      else
        (if 32 \<le> char_val char_signed c then dst @ [c] else dst))"

text \<open>The \<open>for\<close> loop: it stops at the end of \<open>src\<close> or when \<open>dst_idx < dst_size - 2\<close> fails.\<close>

fun json_escape_loop :: "bool \<Rightarrow> nat \<Rightarrow> string \<Rightarrow> string \<Rightarrow> string" where
  "json_escape_loop char_signed dst_size [] dst = dst"
| "json_escape_loop char_signed dst_size (c # cs) dst =
     (if length dst < size_t_sub dst_size 2
      then json_escape_loop char_signed dst_size cs (escape_case char_signed dst_size c dst)
      else dst)"

definition json_escape :: "bool \<Rightarrow> string \<Rightarrow> nat \<Rightarrow> string" where
  "json_escape char_signed src dst_size = json_escape_loop char_signed dst_size src []"

subsection \<open>The two emitters\<close>

abbreviation dq :: char where
  "dq \<equiv> CHR 0x22"

abbreviation nl :: char where
  "nl \<equiv> CHR 0x0A"

definition quoted :: "string \<Rightarrow> string" where
  "quoted s = [dq] @ s @ [dq]"

text \<open>
  A \<open>row\<close> holds the seven values an emitter passes to \<open>printf\<close> for one record, each as
  the text its conversion (\<open>%s\<close>, \<open>%lu\<close>, \<open>%u\<close>) prints.
\<close>

record row =
  r_path :: string
  r_name :: string
  r_inode :: string
  r_size :: string
  r_mtime :: string
  r_mode :: string
  r_is_dir :: string

text \<open>
  The values \<open>output_json\<close> passes for one entry, \<open>mtime_str\<close> being what
  \<open>timestamp_to_iso\<close> left in its buffer: both strings go through \<open>json_escape\<close>.
\<close>

definition json_row :: "bool \<Rightarrow> string \<Rightarrow> file_entry \<Rightarrow> row" where
  "json_row char_signed mtime_str e =
     \<lparr>r_path = json_escape char_signed (path e) 8192,
      r_name = json_escape char_signed (name e) 512,
      r_inode = dec (unat (inode e)),
      r_size = dec (unat (size_e e)),
      r_mtime = mtime_str,
      r_mode = dec (unat (mode e)),
      r_is_dir = bool_str (S_ISDIR (mode e))\<rparr>"

text \<open>The values \<open>output_csv\<close> passes for one entry: the stored strings as they are.\<close>

definition csv_row :: "string \<Rightarrow> file_entry \<Rightarrow> row" where
  "csv_row mtime_str e =
     \<lparr>r_path = path e,
      r_name = name e,
      r_inode = dec (unat (inode e)),
      r_size = dec (unat (size_e e)),
      r_mtime = mtime_str,
      r_mode = dec (unat (mode e)),
      r_is_dir = bool_str (S_ISDIR (mode e))\<rparr>"

text \<open>The eight \<open>printf\<close> calls of \<open>output_json\<close> for one entry.\<close>

definition json_object :: "row \<Rightarrow> string" where
  "json_object r =
     ''    {'' @ [nl] @
     ''      '' @ quoted ''path'' @ '': '' @ quoted (r_path r) @ '','' @ [nl] @
     ''      '' @ quoted ''name'' @ '': '' @ quoted (r_name r) @ '','' @ [nl] @
     ''      '' @ quoted ''inode'' @ '': '' @ r_inode r @ '','' @ [nl] @
     ''      '' @ quoted ''size'' @ '': '' @ r_size r @ '','' @ [nl] @
     ''      '' @ quoted ''mtime'' @ '': '' @ quoted (r_mtime r) @ '','' @ [nl] @
     ''      '' @ quoted ''mode'' @ '': '' @ r_mode r @ '','' @ [nl] @
     ''      '' @ quoted ''is_dir'' @ '': '' @ r_is_dir r @ [nl] @
     ''    }''"

text \<open>
  The \<open>while (entry)\<close> loop of \<open>output_json\<close>; \<open>first\<close> is its flag. The result is what
  the loop has passed to \<open>printf\<close>, and whether the process was killed in
  \<open>timestamp_to_iso\<close>: the separator of an entry is printed before its time is
  converted, its object after.
\<close>

fun json_entries :: "bool \<Rightarrow> (int \<Rightarrow> string option) \<Rightarrow> bool \<Rightarrow> file_entry list \<Rightarrow> bool \<times> string" where
  "json_entries char_signed strftime_gmtime first [] = (False, [])"
| "json_entries char_signed strftime_gmtime first (e # es) =
     (let sep = (if \<not> first then '','' @ [nl] else [])
      in case timestamp_to_iso strftime_gmtime (mtime e) of
           None \<Rightarrow> (True, sep)
         | Some mtime_str \<Rightarrow>
             (case json_entries char_signed strftime_gmtime False es of
                (killed, rest) \<Rightarrow>
                  (killed, sep @ json_object (json_row char_signed mtime_str e) @ rest)))"

definition json_header :: "32 word \<Rightarrow> int \<Rightarrow> string" where
  "json_header count now =
     ''{'' @ [nl] @
     ''  '' @ quoted ''metadata'' @ '': {'' @ [nl] @
     ''    '' @ quoted ''total_files'' @ '': '' @ sdec (sint count) @ '','' @ [nl] @
     ''    '' @ quoted ''scan_time'' @ '': '' @ quoted (sdec now) @ '','' @ [nl] @
     ''    '' @ quoted ''format'' @ '': '' @ quoted ''btrfs_metadata'' @ [nl] @
     ''  },'' @ [nl] @
     ''  '' @ quoted ''files'' @ '': ['' @ [nl]"

definition json_footer :: string where
  "json_footer = [nl] @ ''  ]'' @ [nl] @ ''}'' @ [nl]"

text \<open>
  \<open>output_json\<close> and \<open>output_csv\<close> return whether the process was killed, and the
  state. \<open>out\<close> holds what has been passed to \<open>printf\<close>; when the process is killed,
  the part still in the buffer of the stream does not reach the descriptor.
\<close>

definition output_json :: "bool \<Rightarrow> (int \<Rightarrow> string option) \<Rightarrow> int \<Rightarrow> prog \<Rightarrow> bool \<times> prog" where
  "output_json char_signed strftime_gmtime now s =
     (case json_entries char_signed strftime_gmtime True (file_list s) of
        (killed, body) \<Rightarrow>
          (killed, s\<lparr>out := out s @ json_header (file_count s) now @ body
                               @ (if killed then [] else json_footer)\<rparr>))"

definition csv_line :: "row \<Rightarrow> string" where
  "csv_line r =
     quoted (r_path r) @ '','' @ quoted (r_name r) @ '','' @ r_inode r @ '','' @ r_size r @ '',''
       @ quoted (r_mtime r) @ '','' @ r_mode r @ '','' @ r_is_dir r @ [nl]"

definition csv_header :: string where
  "csv_header = ''path,name,inode,size,mtime,mode,is_dir'' @ [nl]"

text \<open>The \<open>while (entry)\<close> loop of \<open>output_csv\<close>: the time is converted before the row is printed.\<close>

fun csv_entries :: "(int \<Rightarrow> string option) \<Rightarrow> file_entry list \<Rightarrow> bool \<times> string" where
  "csv_entries strftime_gmtime [] = (False, [])"
| "csv_entries strftime_gmtime (e # es) =
     (case timestamp_to_iso strftime_gmtime (mtime e) of
        None \<Rightarrow> (True, [])
      | Some mtime_str \<Rightarrow>
          (case csv_entries strftime_gmtime es of
             (killed, rest) \<Rightarrow> (killed, csv_line (csv_row mtime_str e) @ rest)))"

definition output_csv :: "(int \<Rightarrow> string option) \<Rightarrow> prog \<Rightarrow> bool \<times> prog" where
  "output_csv strftime_gmtime s =
     (case csv_entries strftime_gmtime (file_list s) of
        (killed, body) \<Rightarrow> (killed, s\<lparr>out := out s @ csv_header @ body\<rparr>))"

section \<open>The crawler\<close>

text \<open>The fields of \<open>struct stat\<close> the program reads, at the widths it stores them.\<close>

record stat =
  st_ino :: "64 word"
  st_size :: "64 word"
  st_mtime :: "64 word"
  st_mode :: "32 word"

text \<open>
  The operating system is modelled by its answers. A \<open>dirent\<close> is one entry returned by
  \<open>readdir\<close>, together with the answers to the calls the crawler makes for it: \<open>lstat\<close> on
  the path built for the entry (\<open>None\<close> when it fails), \<open>malloc\<close> inside
  \<open>add_file_entry\<close> (\<open>False\<close> for NULL), and \<open>opendir\<close> on the same path (\<open>None\<close> when
  it fails, else the entries \<open>readdir\<close> then returns, in order). An answer the crawler
  never asks for is not looked at. The tree is finite: a walk that never ends has no model
  here.
\<close>

datatype dirent =
  Dirent (d_name: string) (lstat_ans: "stat option") (malloc_ans: bool)
         (opendir_ans: "dirent list option")

text \<open>\<open>snprintf(full_path, sizeof(full_path), "%s/%s", path, entry->d_name)\<close> with a buffer of 4096 bytes.\<close>

definition full_path_of :: "string \<Rightarrow> string \<Rightarrow> string" where
  "full_path_of p n = take 4095 (p @ ''/'' @ n)"

definition progress :: "prog \<Rightarrow> prog" where
  "progress s =
     (if sint (file_count s) smod 1000 = 0
      then s\<lparr>err := err s @ [CHR 0x0D] @ ''Processed '' @ sdec (sint (file_count s)) @ '' files...''\<rparr>
      else s)"

text \<open>
  \<open>crawl_filesystem\<close>: the first argument is the answer of \<open>opendir(path)\<close>; the result
  is the returned \<open>int\<close> and the new state. \<open>readdir_loop\<close> is its \<open>while\<close> loop over the
  entries \<open>readdir\<close> returns.
\<close>

function crawl_filesystem :: "dirent list option \<Rightarrow> string \<Rightarrow> prog \<Rightarrow> int \<times> prog"
  and readdir_loop :: "dirent list \<Rightarrow> string \<Rightarrow> prog \<Rightarrow> prog" where
  "crawl_filesystem None p s = (- 1, s)"
| "crawl_filesystem (Some es) p s =
     (0, readdir_loop es p (s\<lparr>err := err s @ ''Crawling filesystem from '' @ p @ ''...'' @ [nl]\<rparr>))"
| "readdir_loop [] p s = s"
| "readdir_loop (e # es) p s =
     (if d_name e = ''.'' \<or> d_name e = ''..'' then readdir_loop es p s
      else
        (case lstat_ans e of
           None \<Rightarrow> readdir_loop es p s
         | Some st \<Rightarrow>
             readdir_loop es p
               (let s1 = progress (add_file_entry (malloc_ans e) (full_path_of p (d_name e)) (d_name e)
                                     (st_ino st) (st_size st) (st_mtime st) (st_mode st) s)
                in if S_ISDIR (st_mode st)
                   then snd (crawl_filesystem (opendir_ans e) (full_path_of p (d_name e)) s1)
                   else s1)))"
  by pat_completeness auto

termination
proof (relation "measure (\<lambda>x. case x of
                    Inl (a, p, s) \<Rightarrow> size_option (size_list size) a
                  | Inr (es, p, s) \<Rightarrow> size_list size es)", goal_cases)
  case 1
  show ?case by simp
next
  case (2 es p s)
  show ?case by simp
next
  case (3 e es p s)
  show ?case by simp
next
  case (4 e es p s)
  show ?case by simp
next
  case (5 e es p s st)
  have "size_option (size_list size) (opendir_ans e) \<le> size e"
    by (cases e) simp
  then show ?case by simp
next
  case (6 e es p s st)
  show ?case by simp
qed

declare readdir_loop.simps(2) [simp del]

section \<open>The byte decoder and the inode item\<close>

text \<open>
  A pointer into the item is a buffer of bytes and an offset. \<open>get_le64\<close> and \<open>get_le32\<close>
  check nothing themselves; a read at an index outside the buffer is undefined behaviour
  in C and \<open>None\<close> here.
\<close>

definition get_le64 :: "8 word list \<Rightarrow> nat \<Rightarrow> 64 word option" where
  "get_le64 buf off =
     (if off + 7 < length buf
      then Some (push_bit 56 (ucast (buf ! (off + 7))) OR push_bit 48 (ucast (buf ! (off + 6))) OR
                 push_bit 40 (ucast (buf ! (off + 5))) OR push_bit 32 (ucast (buf ! (off + 4))) OR
                 push_bit 24 (ucast (buf ! (off + 3))) OR push_bit 16 (ucast (buf ! (off + 2))) OR
                 push_bit 8 (ucast (buf ! (off + 1))) OR ucast (buf ! off))
      else None)"

definition get_le32 :: "8 word list \<Rightarrow> nat \<Rightarrow> 32 word option" where
  "get_le32 buf off =
     (if off + 3 < length buf
      then Some (push_bit 24 (ucast (buf ! (off + 3))) OR push_bit 16 (ucast (buf ! (off + 2))) OR
                 push_bit 8 (ucast (buf ! (off + 1))) OR ucast (buf ! off))
      else None)"

text \<open>
  The layout of the packed \<open>struct simple_inode_item\<close>: five 64-bit fields, four 32-bit
  fields, three 64-bit fields and \<open>reserved[4]\<close> take 112 bytes, then come \<open>atime\<close>,
  \<open>ctime\<close>, \<open>mtime\<close> and \<open>otime\<close>. The parameter \<open>ts\<close> is the size of their unnamed
  struct type (a 64-bit and a 32-bit member): 16 where the attribute of the outer struct
  leaves the nested type its natural layout, 12 where it is packed too.
\<close>

definition offsetof_size :: nat where
  "offsetof_size = 16"

definition offsetof_mode :: nat where
  "offsetof_mode = 52"

definition offsetof_mtime_sec :: "nat \<Rightarrow> nat" where
  "offsetof_mtime_sec ts = 112 + 2 * ts"

definition sizeof_simple_inode_item :: "nat \<Rightarrow> nat" where
  "sizeof_simple_inode_item ts = 112 + 4 * ts"

text \<open>\<open>strrchr(path, '/')\<close>, then the byte after it, or the whole path when there is no slash.\<close>

definition name_of_path :: "string \<Rightarrow> string" where
  "name_of_path p = rev (takeWhile (\<lambda>c. c \<noteq> CHR ''/'') (rev p))"

definition process_inode_item ::
  "nat \<Rightarrow> bool \<Rightarrow> 64 word \<Rightarrow> 8 word list \<Rightarrow> 32 word \<Rightarrow> string \<Rightarrow> prog \<Rightarrow> prog option" where
  "process_inode_item ts malloc_ok objectid item_data item_len p s =
     (if unat item_len < sizeof_simple_inode_item ts then Some s
      else
        (case get_le64 item_data offsetof_size of
           None \<Rightarrow> None
         | Some sz \<Rightarrow>
             (case get_le64 item_data (offsetof_mtime_sec ts) of
                None \<Rightarrow> None
              | Some mt \<Rightarrow>
                  (case get_le32 item_data offsetof_mode of
                     None \<Rightarrow> None
                   | Some md \<Rightarrow>
                       Some (add_file_entry malloc_ok p (name_of_path p) objectid sz mt md s)))))"

section \<open>The probe and \<open>main\<close>\<close>

text \<open>
  The environment of one run: the platform's \<open>char\<close>, the C library's time formatting
  (\<open>None\<close> where \<open>gmtime\<close> returns NULL),
  and the answers to the system calls \<open>main\<close> and \<open>search_btrfs_metadata\<close> make:
  \<open>time(NULL)\<close>, \<open>stat\<close> (with the text of \<open>strerror(errno)\<close> when it fails), \<open>open\<close>
  (\<open>False\<close> for a negative descriptor, with its \<open>strerror\<close> text), the
  \<open>BTRFS_IOC_FS_INFO\<close> \<open>ioctl\<close> (\<open>False\<close> for a negative result), and \<open>opendir\<close> on the
  root for the crawl started by the probe and for the one started by \<open>main\<close>.
\<close>

record env =
  abi_char_signed :: bool
  libc_strftime_gmtime :: "int \<Rightarrow> string option"
  time_ans :: int
  stat_ans :: "stat option"
  stat_strerror :: string
  open_ans :: bool
  open_strerror :: string
  ioctl_ans :: bool
  opendir_probe :: "dirent list option"
  opendir_main :: "dirent list option"

definition search_btrfs_metadata :: "env \<Rightarrow> string \<Rightarrow> prog \<Rightarrow> int \<times> prog" where
  "search_btrfs_metadata ev mount_path s =
     (if \<not> open_ans ev then
        (- 1, s\<lparr>err := err s @ ''Error: Cannot open '' @ mount_path @ '': '' @ open_strerror ev @ [nl]\<rparr>)
      else if \<not> ioctl_ans ev then
        (- 1, s\<lparr>err := err s @ ''Error: '' @ mount_path
                       @ '' is not a btrfs filesystem or lacks permissions'' @ [nl]\<rparr>)
      else
        crawl_filesystem (opendir_probe ev) mount_path
          (s\<lparr>err := err s
                 @ ''Warning: Direct metadata access failed, falling back to filesystem crawl...''
                 @ [nl]\<rparr>))"

definition print_usage :: "string \<Rightarrow> prog \<Rightarrow> prog" where
  "print_usage argv0 s =
     s\<lparr>out := out s @
        ''Usage: '' @ argv0 @ '' [OPTIONS] <path>'' @ [nl] @
        ''Options:'' @ [nl] @
        ''  -f FORMAT   Output format: json (default) or csv'' @ [nl] @
        ''  -h          Show this help'' @ [nl] @
        [nl] @
        ''Example: '' @ argv0 @ '' /home > files.json'' @ [nl] @
        ''         '' @ argv0 @ '' -f csv /home > files.csv'' @ [nl]\<rparr>"

text \<open>How the process ends: \<open>main\<close> returns a code, or the process is killed by a signal.\<close>

datatype status = Exited int | Killed

text \<open>
  The successive results of \<open>getopt(argc, argv, "f:h")\<close> before it returns -1: \<open>'f'\<close>
  with \<open>optarg\<close>, \<open>'h'\<close>, or anything else, with the message \<open>getopt\<close> itself wrote to
  standard error.
\<close>

datatype getopt_ret = Opt_f string | Opt_h | Opt_other string

text \<open>The \<open>while\<close> loop over the options: \<open>Inl\<close> is a \<open>return\<close> from \<open>main\<close>, \<open>Inr\<close> the format chosen.\<close>

fun getopt_loop :: "string \<Rightarrow> getopt_ret list \<Rightarrow> string \<Rightarrow> prog \<Rightarrow> (status \<times> prog) + string" where
  "getopt_loop argv0 [] format s = Inr format"
| "getopt_loop argv0 (Opt_f optarg # rs) format s =
     (if optarg \<noteq> ''json'' \<and> optarg \<noteq> ''csv''
      then Inl (Exited 1,
                s\<lparr>err := err s @ ''Error: Invalid format '' @ [CHR 0x27] @ optarg @ [CHR 0x27]
                           @ ''. Use '' @ [CHR 0x27] @ ''json'' @ [CHR 0x27] @ '' or ''
                           @ [CHR 0x27] @ ''csv'' @ [CHR 0x27] @ ''.'' @ [nl]\<rparr>)
      else getopt_loop argv0 rs optarg s)"
| "getopt_loop argv0 (Opt_h # rs) format s = Inl (Exited 0, print_usage argv0 s)"
| "getopt_loop argv0 (Opt_other msg # rs) format s =
     Inl (Exited 1, print_usage argv0 (s\<lparr>err := err s @ msg\<rparr>))"

text \<open>
  From the \<open>Completed!\<close> message to the end of \<open>main\<close>: the chosen emitter, in which the
  process may be killed, then the list is freed and \<open>main\<close> returns 0.
\<close>

definition finish :: "env \<Rightarrow> string \<Rightarrow> prog \<Rightarrow> status \<times> prog" where
  "finish ev format s =
     (let s1 = s\<lparr>err := err s @ [CHR 0x0D] @ ''Completed! Found '' @ sdec (sint (file_count s))
                         @ '' files.'' @ [nl]\<rparr>
      in case (if format = ''csv'' then output_csv (libc_strftime_gmtime ev) s1
               else output_json (abi_char_signed ev) (libc_strftime_gmtime ev) (time_ans ev) s1) of
           (killed, s2) \<Rightarrow> if killed then (Killed, s2) else (Exited 0, s2\<lparr>file_list := []\<rparr>))"

text \<open>
  \<open>main\<close>: \<open>argv0\<close> is the program name, \<open>opts\<close> what \<open>getopt\<close> returns, \<open>args\<close> the
  arguments from \<open>argv[optind]\<close> on. The result is how the process ends and the final
  state.
\<close>

definition main :: "env \<Rightarrow> string \<Rightarrow> getopt_ret list \<Rightarrow> string list \<Rightarrow> status \<times> prog" where
  "main ev argv0 opts args =
     (case getopt_loop argv0 opts ''json'' init_prog of
        Inl r \<Rightarrow> r
      | Inr format \<Rightarrow>
          (case args of
             [] \<Rightarrow> (Exited 1, print_usage argv0 (init_prog\<lparr>err := ''Error: Missing path.'' @ [nl]\<rparr>))
           | p # _ \<Rightarrow>
               (case stat_ans ev of
                  None \<Rightarrow>
                    (Exited 1,
                     init_prog\<lparr>err := ''Error: Cannot access '' @ p @ '': '' @ stat_strerror ev @ [nl]\<rparr>)
                | Some st \<Rightarrow>
                    if \<not> S_ISDIR (st_mode st)
                    then (Exited 1, init_prog\<lparr>err := ''Error: '' @ p @ '' is not a directory.'' @ [nl]\<rparr>)
                    else
                      (case search_btrfs_metadata ev p init_prog of
                         (r1, s1) \<Rightarrow>
                           if r1 \<noteq> 0
                           then (case crawl_filesystem (opendir_main ev) p s1 of
                                   (r2, s2) \<Rightarrow>
                                     if r2 \<noteq> 0
                                     then (Exited 1,
                                           s2\<lparr>err := err s2 @ ''Error: Failed to process filesystem.''
                                                          @ [nl]\<rparr>)
                                     else finish ev format s2)
                           else finish ev format s1))))"

section \<open>Vocabulary of the properties\<close>

text \<open>One call of \<open>add_file_entry\<close>: the answer of \<open>malloc\<close> and the six arguments.\<close>

record add_call =
  c_malloc :: bool
  c_path :: string
  c_name :: string
  c_inode :: "64 word"
  c_size :: "64 word"
  c_mtime :: "64 word"
  c_mode :: "32 word"

definition do_add :: "add_call \<Rightarrow> prog \<Rightarrow> prog" where
  "do_add c s =
     add_file_entry (c_malloc c) (c_path c) (c_name c) (c_inode c) (c_size c) (c_mtime c) (c_mode c) s"

text \<open>The record a successful call stores.\<close>

definition entry_of :: "add_call \<Rightarrow> file_entry" where
  "entry_of c = mk_entry (c_path c) (c_name c) (c_inode c) (c_size c) (c_mtime c) (c_mode c)"

text \<open>A sequence of calls, the first of the list first.\<close>

definition run_adds :: "add_call list \<Rightarrow> prog \<Rightarrow> prog" where
  "run_adds cs s = fold do_add cs s"

text \<open>
  The escaping rule in the specification's words, for one byte: five bytes have a
  two-byte escape, any other byte with a value below 32 is dropped, every other byte is
  kept. The value of a byte is between 0 and 255.
\<close>

definition spec_escape :: "char \<Rightarrow> string" where
  "spec_escape c =
     (if c = CHR 0x22 then [CHR 0x5C, CHR 0x22]
      else if c = CHR 0x5C then [CHR 0x5C, CHR 0x5C]
      else if c = CHR 0x0A then [CHR 0x5C, CHR ''n'']
      else if c = CHR 0x0D then [CHR 0x5C, CHR ''r'']
      else if c = CHR 0x09 then [CHR 0x5C, CHR ''t'']
      else if (of_char c :: nat) < 32 then []
      else [c])"

text \<open>
  The same rule with the comparison the code makes, on the promoted \<open>char\<close>: with a signed
  \<open>char\<close> the bytes from 128 on are negative.
\<close>

definition code_escape :: "bool \<Rightarrow> char \<Rightarrow> string" where
  "code_escape char_signed c =
     (if c = CHR 0x22 then [CHR 0x5C, CHR 0x22]
      else if c = CHR 0x5C then [CHR 0x5C, CHR 0x5C]
      else if c = CHR 0x0A then [CHR 0x5C, CHR ''n'']
      else if c = CHR 0x0D then [CHR 0x5C, CHR ''r'']
      else if c = CHR 0x09 then [CHR 0x5C, CHR ''t'']
      else if char_val char_signed c < 32 then []
      else [c])"

text \<open>A byte the escaper copies as it is.\<close>

definition plain_byte :: "bool \<Rightarrow> char \<Rightarrow> bool" where
  "plain_byte char_signed c = (code_escape char_signed c = [c])"

text \<open>The two entries \<open>crawl_filesystem\<close> skips by name.\<close>

definition pseudo_entry :: "dirent \<Rightarrow> bool" where
  "pseudo_entry e = (d_name e = ''.'' \<or> d_name e = ''..'')"

definition is_directory :: "dirent \<Rightarrow> bool" where
  "is_directory e = (case lstat_ans e of None \<Rightarrow> False | Some st \<Rightarrow> S_ISDIR (st_mode st))"

text \<open>
  The objects beneath a directory whose listing is \<open>es\<close>: every entry other than the two
  pseudo-entries, followed by the objects beneath it, in listing order.
\<close>

fun objects :: "dirent list \<Rightarrow> dirent list" where
  "objects [] = []"
| "objects (Dirent n l m a # es) =
     (if pseudo_entry (Dirent n l m a) then objects es
      else Dirent n l m a # (case a of None \<Rightarrow> [] | Some sub \<Rightarrow> objects sub) @ objects es)"

definition count_dirs :: "dirent list \<Rightarrow> nat" where
  "count_dirs es = length (filter is_directory (objects es))"

definition count_nondirs :: "dirent list \<Rightarrow> nat" where
  "count_nondirs es = length (filter (\<lambda>e. \<not> is_directory e) (objects es))"

text \<open>
  A tree in which every entry can be stat'ed and exactly the directories have a listing,
  so that every directory can be opened.
\<close>

definition openable_tree :: "dirent list \<Rightarrow> bool" where
  "openable_tree es =
     list_all (\<lambda>e. lstat_ans e \<noteq> None \<and> (is_directory e \<longleftrightarrow> opendir_ans e \<noteq> None)) (objects es)"

definition all_allocated :: "dirent list \<Rightarrow> bool" where
  "all_allocated es = list_all malloc_ans (objects es)"

text \<open>
  An entry whose time the library can convert, and the entries an emitter reaches before
  the process is killed: those before the first whose time cannot be converted, all of
  them when there is none.
\<close>

definition convertible :: "(int \<Rightarrow> string option) \<Rightarrow> file_entry \<Rightarrow> bool" where
  "convertible strftime_gmtime e = (timestamp_to_iso strftime_gmtime (mtime e) \<noteq> None)"

definition emitted :: "(int \<Rightarrow> string option) \<Rightarrow> file_entry list \<Rightarrow> file_entry list" where
  "emitted strftime_gmtime es = takeWhile (convertible strftime_gmtime) es"

text \<open>The texts \<open>xs\<close> in order, with \<open>sep\<close> between two neighbours.\<close>

fun joined :: "string \<Rightarrow> string list \<Rightarrow> string" where
  "joined sep [] = []"
| "joined sep (x # xs) = x @ concat (map (\<lambda>y. sep @ y) xs)"

text \<open>
  The text of the output, written out: the header row and one row of the flat format, and
  the header, one object, the separator of two objects and the footer of the structured
  format, each for the texts of its values.
\<close>

abbreviation csv_head_text :: string where
  "csv_head_text \<equiv> ''path,name,inode,size,mtime,mode,is_dir'' @ [CHR 0x0A]"

abbreviation csv_record_text ::
  "string \<Rightarrow> string \<Rightarrow> string \<Rightarrow> string \<Rightarrow> string \<Rightarrow> string \<Rightarrow> string \<Rightarrow> string" where
  "csv_record_text p n i sz mt md d \<equiv>
     [CHR 0x22] @ p @ [CHR 0x22] @ '','' @ [CHR 0x22] @ n @ [CHR 0x22] @ '','' @ i @ '','' @ sz @ '',''
       @ [CHR 0x22] @ mt @ [CHR 0x22] @ '','' @ md @ '','' @ d @ [CHR 0x0A]"

abbreviation json_head_text :: "string \<Rightarrow> string \<Rightarrow> string" where
  "json_head_text tot now \<equiv>
     ''{'' @ [CHR 0x0A] @
     ''  '' @ [CHR 0x22] @ ''metadata'' @ [CHR 0x22] @ '': {'' @ [CHR 0x0A] @
     ''    '' @ [CHR 0x22] @ ''total_files'' @ [CHR 0x22] @ '': '' @ tot @ '','' @ [CHR 0x0A] @
     ''    '' @ [CHR 0x22] @ ''scan_time'' @ [CHR 0x22] @ '': '' @ [CHR 0x22] @ now @ [CHR 0x22] @ '',''
       @ [CHR 0x0A] @
     ''    '' @ [CHR 0x22] @ ''format'' @ [CHR 0x22] @ '': '' @ [CHR 0x22] @ ''btrfs_metadata''
       @ [CHR 0x22] @ [CHR 0x0A] @
     ''  },'' @ [CHR 0x0A] @
     ''  '' @ [CHR 0x22] @ ''files'' @ [CHR 0x22] @ '': ['' @ [CHR 0x0A]"

abbreviation json_record_text ::
  "string \<Rightarrow> string \<Rightarrow> string \<Rightarrow> string \<Rightarrow> string \<Rightarrow> string \<Rightarrow> string \<Rightarrow> string" where
  "json_record_text p n i sz mt md d \<equiv>
     ''    {'' @ [CHR 0x0A] @
     ''      '' @ [CHR 0x22] @ ''path'' @ [CHR 0x22] @ '': '' @ [CHR 0x22] @ p @ [CHR 0x22] @ '',''
       @ [CHR 0x0A] @
     ''      '' @ [CHR 0x22] @ ''name'' @ [CHR 0x22] @ '': '' @ [CHR 0x22] @ n @ [CHR 0x22] @ '',''
       @ [CHR 0x0A] @
     ''      '' @ [CHR 0x22] @ ''inode'' @ [CHR 0x22] @ '': '' @ i @ '','' @ [CHR 0x0A] @
     ''      '' @ [CHR 0x22] @ ''size'' @ [CHR 0x22] @ '': '' @ sz @ '','' @ [CHR 0x0A] @
     ''      '' @ [CHR 0x22] @ ''mtime'' @ [CHR 0x22] @ '': '' @ [CHR 0x22] @ mt @ [CHR 0x22] @ '',''
       @ [CHR 0x0A] @
     ''      '' @ [CHR 0x22] @ ''mode'' @ [CHR 0x22] @ '': '' @ md @ '','' @ [CHR 0x0A] @
     ''      '' @ [CHR 0x22] @ ''is_dir'' @ [CHR 0x22] @ '': '' @ d @ [CHR 0x0A] @
     ''    }''"

abbreviation json_sep_text :: string where
  "json_sep_text \<equiv> '','' @ [CHR 0x0A]"

abbreviation json_foot_text :: string where
  "json_foot_text \<equiv> [CHR 0x0A] @ ''  ]'' @ [CHR 0x0A] @ ''}'' @ [CHR 0x0A]"

text \<open>
  The text of the row and of the object of one entry: the stored strings in the row, their
  escaped forms in the object, and in both the same decimal numbers, the same time and the
  same \<open>is_dir\<close>.
\<close>

abbreviation csv_text_of :: "(int \<Rightarrow> string option) \<Rightarrow> file_entry \<Rightarrow> string" where
  "csv_text_of tm e \<equiv>
     csv_record_text (path e) (name e) (dec (unat (inode e))) (dec (unat (size_e e)))
       (the (timestamp_to_iso tm (mtime e))) (dec (unat (mode e))) (bool_str (S_ISDIR (mode e)))"

abbreviation json_text_of :: "bool \<Rightarrow> (int \<Rightarrow> string option) \<Rightarrow> file_entry \<Rightarrow> string" where
  "json_text_of sg tm e \<equiv>
     json_record_text (json_escape sg (path e) 8192) (json_escape sg (name e) 512)
       (dec (unat (inode e))) (dec (unat (size_e e)))
       (the (timestamp_to_iso tm (mtime e))) (dec (unat (mode e))) (bool_str (S_ISDIR (mode e)))"

text \<open>
  The store \<open>main\<close> hands to the emitter in a run on the directory \<open>p\<close>: what the crawl
  started by the probe left, or the one started by \<open>main\<close> when the former returned -1.
\<close>

definition gathered :: "env \<Rightarrow> string \<Rightarrow> prog" where
  "gathered ev p =
     (case search_btrfs_metadata ev p init_prog of
        (r1, s1) \<Rightarrow> if r1 \<noteq> 0 then snd (crawl_filesystem (opendir_main ev) p s1) else s1)"

text \<open>The line \<open>search_btrfs_metadata\<close> writes to standard error when the probe fails.\<close>

definition probe_message :: "env \<Rightarrow> string \<Rightarrow> string" where
  "probe_message ev mount_path =
     (if \<not> open_ans ev
      then ''Error: Cannot open '' @ mount_path @ '': '' @ open_strerror ev @ [nl]
      else ''Error: '' @ mount_path @ '' is not a btrfs filesystem or lacks permissions'' @ [nl])"

text \<open>An option \<open>-f\<close>, and one whose argument is one of the two formats.\<close>

definition format_opt :: "getopt_ret \<Rightarrow> bool" where
  "format_opt r = (case r of Opt_f a \<Rightarrow> True | _ \<Rightarrow> False)"

definition valid_format_opt :: "getopt_ret \<Rightarrow> bool" where
  "valid_format_opt r = (case r of Opt_f a \<Rightarrow> a = ''json'' \<or> a = ''csv'' | _ \<Rightarrow> False)"

text \<open>The format in force after the options: that of the last \<open>-f\<close>, else the default.\<close>

fun chosen_format :: "string \<Rightarrow> getopt_ret list \<Rightarrow> string" where
  "chosen_format format [] = format"
| "chosen_format format (Opt_f a # rs) = chosen_format a rs"
| "chosen_format format (r # rs) = chosen_format format rs"

text \<open>The path exists and is a directory: \<open>stat\<close> succeeds and its mode says so.\<close>

definition path_is_directory :: "env \<Rightarrow> bool" where
  "path_is_directory ev = (case stat_ans ev of None \<Rightarrow> False | Some st \<Rightarrow> S_ISDIR (st_mode st))"

text \<open>
  A listing can be produced: the probe succeeds and the root opens for the crawl it
  starts, or the root opens for the crawl \<open>main\<close> starts.
\<close>

definition listing_available :: "env \<Rightarrow> bool" where
  "listing_available ev =
     ((open_ans ev \<and> ioctl_ans ev \<and> opendir_probe ev \<noteq> None) \<or> opendir_main ev \<noteq> None)"

text \<open>
  Sample data for the instances: three calls, the last without memory, and a time formatter.
  It fails as \<open>gmtime\<close> does with a 64-bit \<open>time_t\<close>, outside the times whose year fits
  an \<open>int\<close>; the text it gives for the other times is that of time 0.
\<close>

definition sample_time :: "int \<Rightarrow> string option" where
  "sample_time t =
     (if - 67768040609740800 \<le> t \<and> t \<le> 67768036191676799 then Some ''1970-01-01T00:00:00Z''
      else None)"

definition call_a :: add_call where
  "call_a = \<lparr>c_malloc = True, c_path = ''/r/a.txt'', c_name = ''a.txt'', c_inode = 11,
             c_size = 2, c_mtime = 0, c_mode = 0x81A4\<rparr>"

definition call_d :: add_call where
  "call_d = \<lparr>c_malloc = True, c_path = ''/r/d'', c_name = ''d'', c_inode = 12,
             c_size = 4096, c_mtime = 0, c_mode = 0x41ED\<rparr>"

definition call_lost :: add_call where
  "call_lost = \<lparr>c_malloc = False, c_path = ''/r/x'', c_name = ''x'', c_inode = 13,
                c_size = 0, c_mtime = 0, c_mode = 0x81A4\<rparr>"

definition file_stat :: stat where
  "file_stat = \<lparr>st_ino = 11, st_size = 2, st_mtime = 0, st_mode = 0x81A4\<rparr>"

definition dir_stat :: stat where
  "dir_stat = \<lparr>st_ino = 12, st_size = 4096, st_mtime = 0, st_mode = 0x41ED\<rparr>"

text \<open>
  A run on \<open>/r\<close> where the probe cannot open the path and the root holds the file
  \<open>a.txt\<close> and the directory \<open>d\<close>, which cannot be opened.
\<close>

definition sample_env :: env where
  "sample_env =
     \<lparr>abi_char_signed = True, libc_strftime_gmtime = sample_time, time_ans = 0,
      stat_ans = Some dir_stat, stat_strerror = [],
      open_ans = False, open_strerror = ''Permission denied'', ioctl_ans = False,
      opendir_probe = None,
      opendir_main = Some [Dirent ''.'' (Some dir_stat) True None,
                           Dirent ''a.txt'' (Some file_stat) True None,
                           Dirent ''d'' (Some dir_stat) True None]\<rparr>"

text \<open>
  The tree of the specification's scenario, with the two pseudo-entries in each listing:
  the file \<open>a.txt\<close>, the directory \<open>d\<close> and the file \<open>b.txt\<close> in it.
\<close>

definition sample_tree :: "dirent list" where
  "sample_tree =
     [Dirent ''.'' (Some dir_stat) True None,
      Dirent ''..'' (Some dir_stat) True None,
      Dirent ''a.txt'' (Some file_stat) True None,
      Dirent ''d'' (Some dir_stat) True
        (Some [Dirent ''.'' (Some dir_stat) True None,
               Dirent ''..'' (Some dir_stat) True None,
               Dirent ''b.txt'' (Some file_stat) True None])]"

text \<open>A listing with one file for whose record there is no memory.\<close>

definition lost_tree :: "dirent list" where
  "lost_tree = [Dirent ''x'' (Some file_stat) False None]"

text \<open>A call for a file whose name holds a double quote.\<close>

definition call_quote :: add_call where
  "call_quote = \<lparr>c_malloc = True, c_path = ''/r/a'' @ [CHR 0x22] @ ''b'',
                 c_name = ''a'' @ [CHR 0x22] @ ''b'', c_inode = 14, c_size = 0, c_mtime = 0,
                 c_mode = 0x81A4\<rparr>"

text \<open>
  A file with a time beyond the years an \<open>int\<close> holds, and a run on a root with this
  file, a second file and a directory that cannot be opened.
\<close>

definition late_stat :: stat where
  "late_stat = \<lparr>st_ino = 15, st_size = 0, st_mtime = 0x4000000000000000, st_mode = 0x81A4\<rparr>"

definition late_env :: env where
  "late_env =
     sample_env\<lparr>opendir_main := Some [Dirent ''late'' (Some late_stat) True None,
                                       Dirent ''d'' (Some dir_stat) True None,
                                       Dirent ''a.txt'' (Some file_stat) True None]\<rparr>"

section \<open>The text of the two emitters\<close>

lemma emitted_Cons:
  "emitted tm (e # es) = (if convertible tm e then e # emitted tm es else [])"
  by (simp add: emitted_def)

lemma emitted_all: "(emitted tm es = es) = list_all (convertible tm) es"
  by (simp add: emitted_def takeWhile_eq_all_conv list_all_iff)

lemma csv_line_text:
  "csv_line (csv_row m e)
     = csv_record_text (path e) (name e) (dec (unat (inode e))) (dec (unat (size_e e))) m
         (dec (unat (mode e))) (bool_str (S_ISDIR (mode e)))"
  by (simp add: csv_line_def csv_row_def quoted_def)

lemma json_object_text:
  "json_object (json_row sg m e)
     = json_record_text (json_escape sg (path e) 8192) (json_escape sg (name e) 512)
         (dec (unat (inode e))) (dec (unat (size_e e))) m
         (dec (unat (mode e))) (bool_str (S_ISDIR (mode e)))"
  by (simp add: json_object_def json_row_def quoted_def)

lemma json_header_text:
  "json_header c now = json_head_text (sdec (sint c)) (sdec now)"
  by (simp add: json_header_def quoted_def)

text \<open>The loop of \<open>output_csv\<close> prints the rows of the entries it reaches, in the order of the list.\<close>

lemma csv_entries_text:
  "csv_entries tm es = (emitted tm es \<noteq> es, concat (map (csv_text_of tm) (emitted tm es)))"
proof (induction es)
  case Nil
  show ?case by (simp add: emitted_def)
next
  case (Cons e es)
  show ?case
  proof (cases "timestamp_to_iso tm (mtime e)")
    case None
    then show ?thesis
      by (simp add: emitted_Cons convertible_def)
  next
    case (Some m)
    then show ?thesis
      using Cons.IH by (simp add: emitted_Cons convertible_def csv_line_text)
  qed
qed

text \<open>
  The loop of \<open>output_json\<close>, once past its first entry, prints a separator and an object
  for each entry it reaches, and one more separator when it is killed.
\<close>

lemma json_entries_rest:
  "json_entries sg tm False es
     = (emitted tm es \<noteq> es,
        concat (map (\<lambda>e. json_sep_text @ json_text_of sg tm e) (emitted tm es))
          @ (if emitted tm es \<noteq> es then json_sep_text else []))"
proof (induction es)
  case Nil
  show ?case by (simp add: emitted_def)
next
  case (Cons e es)
  show ?case
  proof (cases "timestamp_to_iso tm (mtime e)")
    case None
    then show ?thesis
      by (simp add: emitted_Cons convertible_def)
  next
    case (Some m)
    then show ?thesis
      using Cons.IH by (simp add: emitted_Cons convertible_def json_object_text)
  qed
qed

lemma json_entries_text:
  "json_entries sg tm True es
     = (emitted tm es \<noteq> es,
        joined json_sep_text (map (json_text_of sg tm) (emitted tm es))
          @ (if emitted tm es \<noteq> es \<and> emitted tm es \<noteq> [] then json_sep_text else []))"
proof (cases es)
  case Nil
  then show ?thesis by (simp add: emitted_def)
next
  case (Cons e es')
  show ?thesis
  proof (cases "timestamp_to_iso tm (mtime e)")
    case None
    then show ?thesis
      using Cons by (simp add: emitted_Cons convertible_def)
  next
    case (Some m)
    then show ?thesis
      using Cons json_entries_rest [of sg tm es']
      by (simp add: emitted_Cons convertible_def json_object_text comp_def)
  qed
qed

text \<open>
  What \<open>output_csv\<close> passes to \<open>printf\<close>: the header row, then the rows of the entries
  it reaches; it is killed when it does not reach them all.
\<close>

lemma output_csv_text:
  "output_csv tm s
     = (emitted tm (file_list s) \<noteq> file_list s,
        s\<lparr>out := out s @ csv_head_text @ concat (map (csv_text_of tm) (emitted tm (file_list s)))\<rparr>)"
  by (simp add: output_csv_def csv_entries_text csv_header_def)

text \<open>
  What \<open>output_json\<close> passes to \<open>printf\<close>: the header with the counter, the objects of
  the entries it reaches with a separator between two of them, and the footer; when it is
  killed, a separator in place of the footer if it had printed an object, else nothing.
\<close>

lemma output_json_text:
  "output_json sg tm now s
     = (emitted tm (file_list s) \<noteq> file_list s,
        s\<lparr>out := out s @ json_head_text (sdec (sint (file_count s))) (sdec now)
                 @ joined json_sep_text (map (json_text_of sg tm) (emitted tm (file_list s)))
                 @ (if emitted tm (file_list s) \<noteq> file_list s
                    then (if emitted tm (file_list s) = [] then [] else json_sep_text)
                    else json_foot_text)\<rparr>)"
  by (simp add: output_json_def json_entries_text json_header_text json_footer_def)

section \<open>The sample data\<close>

text \<open>Times, decimal texts, escaped strings, rows and objects of the sample data.\<close>

lemma sample_time_0: "timestamp_to_iso sample_time 0 = Some ''1970-01-01T00:00:00Z''"
  by (simp add: timestamp_to_iso_def sample_time_def)


lemma dec_samples:
  "dec 0 = ''0''" "dec 1 = ''1''" "dec 2 = ''2''" "dec 3 = ''3''" "dec 11 = ''11''" "dec 12 = ''12''"
  "dec 14 = ''14''" "dec 15 = ''15''" "dec 4096 = ''4096''" "dec 33188 = ''33188''"
  "dec 16877 = ''16877''" "dec (Suc 0) = ''1''" "dec (Suc (Suc 0)) = ''2''"
  by (simp_all add: dec.simps digit_def)

lemma json_escape_samples:
  "json_escape sg ''/r/a.txt'' 8192 = ''/r/a.txt''" "json_escape sg ''a.txt'' 512 = ''a.txt''"
  "json_escape sg ''/r/d'' 8192 = ''/r/d''" "json_escape sg ''d'' 512 = ''d''"
  by (simp_all add: json_escape_def escape_case_def char_val_def size_t_sub_def)

lemma entry_of_samples:
  "entry_of call_a = mk_entry ''/r/a.txt'' ''a.txt'' 11 2 0 0x81A4"
  "entry_of call_d = mk_entry ''/r/d'' ''d'' 12 4096 0 0x41ED"
  by (simp_all add: entry_of_def call_a_def call_d_def)

lemma json_text_samples:
  "json_text_of sg sample_time (mk_entry ''/r/a.txt'' ''a.txt'' 11 2 0 0x81A4)
     = json_record_text ''/r/a.txt'' ''a.txt'' ''11'' ''2'' ''1970-01-01T00:00:00Z'' ''33188'' ''false''"
  "json_text_of sg sample_time (mk_entry ''/r/d'' ''d'' 12 4096 0 0x41ED)
     = json_record_text ''/r/d'' ''d'' ''12'' ''4096'' ''1970-01-01T00:00:00Z'' ''16877'' ''true''"
  by (simp_all add: mk_entry_def strncpy_buf_def json_escape_samples dec_samples sample_time_0
        bool_str_def S_ISDIR_def)

lemma csv_text_samples:
  "csv_text_of sample_time (mk_entry ''/r/a.txt'' ''a.txt'' 11 2 0 0x81A4)
     = csv_record_text ''/r/a.txt'' ''a.txt'' ''11'' ''2'' ''1970-01-01T00:00:00Z'' ''33188'' ''false''"
  "csv_text_of sample_time (mk_entry ''/r/d'' ''d'' 12 4096 0 0x41ED)
     = csv_record_text ''/r/d'' ''d'' ''12'' ''4096'' ''1970-01-01T00:00:00Z'' ''16877'' ''true''"
  by (simp_all add: mk_entry_def strncpy_buf_def dec_samples sample_time_0 bool_str_def S_ISDIR_def)

lemma emitted_sample:
  "emitted sample_time [mk_entry ''/r/d'' ''d'' 12 4096 0 0x41ED,
                        mk_entry ''/r/a.txt'' ''a.txt'' 11 2 0 0x81A4]
     = [mk_entry ''/r/d'' ''d'' 12 4096 0 0x41ED, mk_entry ''/r/a.txt'' ''a.txt'' 11 2 0 0x81A4]"
  by (simp add: emitted_Cons convertible_def mk_entry_def sample_time_0 emitted_def)

lemma run_adds_sample:
  "file_list (run_adds [call_a, call_d] init_prog)
     = [mk_entry ''/r/d'' ''d'' 12 4096 0 0x41ED, mk_entry ''/r/a.txt'' ''a.txt'' 11 2 0 0x81A4]"
  "file_count (run_adds [call_a, call_d] init_prog) = 2"
  "out (run_adds [call_a, call_d] init_prog) = []"
  "list_all c_malloc [call_a, call_d]"
  by (simp_all add: run_adds_def do_add_def add_file_entry_def init_prog_def call_a_def call_d_def)

section \<open>Properties of the record store\<close>

lemma file_list_do_add:
  "file_list (do_add c s) = (if c_malloc c then entry_of c # file_list s else file_list s)"
  by (simp add: do_add_def add_file_entry_def entry_of_def)

lemma file_count_do_add:
  "file_count (do_add c s) = (if c_malloc c then file_count s + 1 else file_count s)"
  by (simp add: do_add_def add_file_entry_def)

lemma out_do_add: "out (do_add c s) = out s"
  by (simp add: do_add_def add_file_entry_def)

lemma file_list_run_adds:
  "file_list (run_adds cs s) = rev (map entry_of (filter c_malloc cs)) @ file_list s"
  unfolding run_adds_def
  by (induction cs arbitrary: s) (simp_all add: file_list_do_add)

lemma file_count_run_adds:
  "file_count (run_adds cs s) = file_count s + word_of_nat (length (filter c_malloc cs))"
  unfolding run_adds_def
  by (induction cs arbitrary: s) (simp_all add: file_count_do_add)

lemma out_run_adds: "out (run_adds cs s) = out s"
  unfolding run_adds_def
  by (induction cs arbitrary: s) (simp_all add: out_do_add)

lemma sint_small_count: "n < 2 ^ 31 \<Longrightarrow> sint (word_of_nat n :: 32 word) = int n"
  by (simp add: signed_of_nat signed_take_bit_int_eq_self)




section \<open>Properties of the escaper\<close>

lemma size_t_sub_fits:
  assumes "b \<le> a" and "a < 2 ^ 64"
  shows "size_t_sub a b = a - b"
proof -
  have "a + 2 ^ 64 - b = (a - b) + 2 ^ 64"
    using assms(1) by simp
  moreover have "a - b < 2 ^ 64"
    using assms(2) by simp
  ultimately show ?thesis
    unfolding size_t_sub_def by (simp only: mod_add_self2 mod_less)
qed

lemma length_code_escape: "length (code_escape sg c) \<le> 2"
  by (simp add: code_escape_def)

lemma escape_case_fits:
  assumes "length dst + 3 < dst_size" and "dst_size < 2 ^ 64"
  shows "escape_case sg dst_size c dst = dst @ code_escape sg c"
proof -
  have "length dst < size_t_sub dst_size 3"
    using assms by (simp add: size_t_sub_fits)
  then show ?thesis
    by (simp add: escape_case_def code_escape_def not_le)
qed

lemma json_escape_loop_fits:
  "length dst + 2 * length src + 2 \<le> dst_size \<Longrightarrow> dst_size < 2 ^ 64 \<Longrightarrow>
   json_escape_loop sg dst_size src dst = dst @ concat (map (code_escape sg) src)"
proof (induction src arbitrary: dst)
  case Nil
  then show ?case by simp
next
  case (Cons c cs)
  have room: "length dst + 3 < dst_size"
    using Cons.prems(1) by simp
  have guard: "length dst < size_t_sub dst_size 2"
    using room Cons.prems(2) by (simp add: size_t_sub_fits)
  have step: "escape_case sg dst_size c dst = dst @ code_escape sg c"
    using room Cons.prems(2) by (rule escape_case_fits)
  have "length (dst @ code_escape sg c) + 2 * length cs + 2 \<le> dst_size"
    using Cons.prems(1) length_code_escape [of sg c] by simp
  then have "json_escape_loop sg dst_size cs (dst @ code_escape sg c)
             = (dst @ code_escape sg c) @ concat (map (code_escape sg) cs)"
    using Cons.prems(2) by (rule Cons.IH)
  then show ?case
    using guard step by simp
qed

text \<open>
  With room for two bytes per source byte and the terminator's slack, the escaper applies
  \<open>code_escape\<close> to every byte and truncates nothing.
\<close>

lemma json_escape_fits:
  "2 * length src + 2 \<le> dst_size \<Longrightarrow> dst_size < 2 ^ 64 \<Longrightarrow>
   json_escape sg src dst_size = concat (map (code_escape sg) src)"
  using json_escape_loop_fits [of "[]" src dst_size sg] by (simp add: json_escape_def)

lemma code_escape_unsigned: "code_escape False = spec_escape"
  by (rule ext) (simp add: code_escape_def spec_escape_def char_val_def)

lemma code_escape_ascii: "(of_char c :: nat) < 128 \<Longrightarrow> code_escape sg c = spec_escape c"
  by (simp add: code_escape_def spec_escape_def char_val_def)

lemma code_escape_signed_high:
  assumes "128 \<le> (of_char c :: nat)"
  shows "code_escape True c = []"
proof -
  have "(of_char c :: nat) < 256"
    by simp
  then have "int (of_char c) - 256 < 32"
    by linarith
  then show ?thesis
    using assms by (auto simp: code_escape_def char_val_def)
qed

text \<open>Where \<open>char\<close> is unsigned, and on bytes below 128 everywhere, the rule of the specification holds.\<close>

lemma json_escape_unsigned:
  "2 * length src + 2 \<le> dst_size \<Longrightarrow> dst_size < 2 ^ 64 \<Longrightarrow>
   json_escape False src dst_size = concat (map spec_escape src)"
  by (simp add: json_escape_fits code_escape_unsigned)

lemma json_escape_ascii:
  assumes "2 * length src + 2 \<le> dst_size" and "dst_size < 2 ^ 64"
    and "list_all (\<lambda>c. (of_char c :: nat) < 128) src"
  shows "json_escape sg src dst_size = concat (map spec_escape src)"
proof -
  have "map (code_escape sg) src = map spec_escape src"
    using assms(3) by (induction src) (simp_all add: code_escape_ascii)
  moreover have "json_escape sg src dst_size = concat (map (code_escape sg) src)"
    using assms(1,2) by (rule json_escape_fits)
  ultimately show ?thesis
    by (simp only:)
qed

text \<open>
  C2. Where \<open>char\<close> is signed, the escaper drops the bytes from 128 on, which the rule
  passes unchanged: the two bytes C3 A9 of a UTF-8 encoded letter, escaped into the 8192
  bytes \<open>output_json\<close> provides for a path, give the empty string, where the rule gives
  the two bytes back.
\<close>

theorem json_escape_drops_high_bytes:
  "json_escape True [CHR 0xC3, CHR 0xA9] 8192 = []
   \<and> concat (map spec_escape [CHR 0xC3, CHR 0xA9]) = [CHR 0xC3, CHR 0xA9]"
  by (simp add: json_escape_def escape_case_def char_val_def size_t_sub_def spec_escape_def)

section \<open>Properties of the crawler\<close>

lemma progress_fields [simp]:
  "file_list (progress s) = file_list s"
  "file_count (progress s) = file_count s"
  "out (progress s) = out s"
  by (simp_all add: progress_def)

lemma add_file_entry_fields:
  "file_list (add_file_entry ok p n i sz mt md s)
     = (if ok then mk_entry p n i sz mt md # file_list s else file_list s)"
  "file_count (add_file_entry ok p n i sz mt md s)
     = (if ok then file_count s + 1 else file_count s)"
  "out (add_file_entry ok p n i sz mt md s) = out s"
  by (simp_all add: add_file_entry_def)

lemma name_mk_entry: "name (mk_entry p n i sz mt md) = strncpy_buf 256 n"
  by (simp add: mk_entry_def)

lemma objects_Cons:
  "objects (e # es) =
     (if pseudo_entry e then objects es
      else e # (case opendir_ans e of None \<Rightarrow> [] | Some sub \<Rightarrow> objects sub) @ objects es)"
  by (cases e) simp

lemma not_pseudo: "\<not> pseudo_entry e \<Longrightarrow> \<not> (d_name e = ''.'' \<or> d_name e = ''..'')"
  by (simp add: pseudo_entry_def)

text \<open>One round of the \<open>while\<close> loop, by the kind of entry.\<close>

lemma readdir_loop_pseudo: "pseudo_entry e \<Longrightarrow> readdir_loop (e # es) p s = readdir_loop es p s"
  by (simp add: pseudo_entry_def readdir_loop.simps(2))

lemma readdir_loop_nostat:
  "lstat_ans e = None \<Longrightarrow> readdir_loop (e # es) p s = readdir_loop es p s"
  by (simp add: readdir_loop.simps(2))

lemma readdir_loop_file:
  "\<not> pseudo_entry e \<Longrightarrow> lstat_ans e = Some st \<Longrightarrow> \<not> S_ISDIR (st_mode st) \<Longrightarrow>
   readdir_loop (e # es) p s =
     readdir_loop es p
       (progress (add_file_entry (malloc_ans e) (full_path_of p (d_name e)) (d_name e)
                    (st_ino st) (st_size st) (st_mtime st) (st_mode st) s))"
  by (simp add: pseudo_entry_def readdir_loop.simps(2))

lemma readdir_loop_dir:
  "\<not> pseudo_entry e \<Longrightarrow> lstat_ans e = Some st \<Longrightarrow> S_ISDIR (st_mode st) \<Longrightarrow>
   readdir_loop (e # es) p s =
     readdir_loop es p
       (snd (crawl_filesystem (opendir_ans e) (full_path_of p (d_name e))
          (progress (add_file_entry (malloc_ans e) (full_path_of p (d_name e)) (d_name e)
                    (st_ino st) (st_size st) (st_mtime st) (st_mode st) s))))"
  by (simp add: pseudo_entry_def readdir_loop.simps(2))

lemma readdir_loop_append:
  "readdir_loop (pre @ post) p s = readdir_loop post p (readdir_loop pre p s)"
proof (induction pre arbitrary: s)
  case Nil
  show ?case by simp
next
  case (Cons e pre)
  show ?case
  proof (cases "pseudo_entry e")
    case True
    then show ?thesis by (simp add: readdir_loop_pseudo Cons.IH)
  next
    case False
    note np = this
    show ?thesis
    proof (cases "lstat_ans e")
      case None
      then show ?thesis by (simp add: readdir_loop_nostat Cons.IH)
    next
      case (Some st)
      show ?thesis
      proof (cases "S_ISDIR (st_mode st)")
        case True
        show ?thesis
          using readdir_loop_dir [OF np Some True] Cons.IH by simp
      next
        case False
        show ?thesis
          using readdir_loop_file [OF np Some False] Cons.IH by simp
      qed
    qed
  qed
qed

text \<open>The listing of an entry that is no directory is never asked for.\<close>

lemma readdir_loop_ignores_listing:
  assumes "\<not> is_directory e"
  shows "readdir_loop (e # es) p s
           = readdir_loop (Dirent (d_name e) (lstat_ans e) (malloc_ans e) None # es) p s"
proof (cases "pseudo_entry e")
  case True
  then show ?thesis
    by (simp add: readdir_loop_pseudo pseudo_entry_def)
next
  case False
  note np = this
  then have np2: "\<not> pseudo_entry (Dirent (d_name e) (lstat_ans e) (malloc_ans e) None)"
    by (simp add: pseudo_entry_def)
  show ?thesis
  proof (cases "lstat_ans e")
    case None
    then show ?thesis
      by (simp add: readdir_loop_nostat)
  next
    case (Some st)
    then have nd: "\<not> S_ISDIR (st_mode st)"
      using assms by (simp add: is_directory_def)
    have l2: "lstat_ans (Dirent (d_name e) (lstat_ans e) (malloc_ans e) None) = Some st"
      using Some by simp
    show ?thesis
      using readdir_loop_file [OF np Some nd, of es p s] readdir_loop_file [OF np2 l2 nd, of es p s]
      by simp
  qed
qed

lemma fst_crawl_filesystem: "fst (crawl_filesystem a p s) = (if a = None then - 1 else 0)"
  by (cases a) simp_all

text \<open>
  Whatever the answers of the system, the crawler only prepends records to the list,
  counts each record it prepends and writes nothing to the standard output.
\<close>

lemma crawl_grows:
  "\<exists>new. file_list (snd (crawl_filesystem a p s)) = new @ file_list s
        \<and> file_count (snd (crawl_filesystem a p s)) = file_count s + word_of_nat (length new)
        \<and> out (snd (crawl_filesystem a p s)) = out s"
  and readdir_loop_grows:
  "\<exists>new. file_list (readdir_loop es p s) = new @ file_list s
        \<and> file_count (readdir_loop es p s) = file_count s + word_of_nat (length new)
        \<and> out (readdir_loop es p s) = out s"
proof (induction a p s and es p s rule: crawl_filesystem_readdir_loop.induct)
  case (1 p s)
  show ?case by simp
next
  case (2 es p s)
  then show ?case by simp
next
  case (3 p s)
  show ?case by simp
next
  case (4 e es p s)
  show ?case
  proof (cases "pseudo_entry e")
    case True
    then show ?thesis
      using "4.IH"(1) by (simp add: pseudo_entry_def readdir_loop_pseudo)
  next
    case False
    note np = this
    then have np': "\<not> (d_name e = ''.'' \<or> d_name e = ''..'')"
      by (rule not_pseudo)
    show ?thesis
    proof (cases "lstat_ans e")
      case None
      then show ?thesis
        using "4.IH"(2) [OF np'] by (simp add: readdir_loop_nostat)
    next
      case (Some st)
      let ?s1 = "progress (add_file_entry (malloc_ans e) (full_path_of p (d_name e)) (d_name e)
                    (st_ino st) (st_size st) (st_mtime st) (st_mode st) s)"
      have "\<exists>new. file_list ?s1 = new @ file_list s
                   \<and> file_count ?s1 = file_count s + word_of_nat (length new)
                   \<and> out ?s1 = out s"
        by (cases "malloc_ans e") (simp_all add: add_file_entry_fields)
      then obtain n1 where n1: "file_list ?s1 = n1 @ file_list s"
          "file_count ?s1 = file_count s + word_of_nat (length n1)" "out ?s1 = out s"
        by blast
      show ?thesis
      proof (cases "S_ISDIR (st_mode st)")
        case True
        let ?s2 = "snd (crawl_filesystem (opendir_ans e) (full_path_of p (d_name e)) ?s1)"
        from "4.IH"(3) [OF np' Some refl True]
        obtain n2 where n2: "file_list ?s2 = n2 @ file_list ?s1"
          "file_count ?s2 = file_count ?s1 + word_of_nat (length n2)" "out ?s2 = out ?s1"
          by blast
        from "4.IH"(4) [OF np' Some] True
        obtain n3 where n3: "file_list (readdir_loop es p ?s2) = n3 @ file_list ?s2"
          "file_count (readdir_loop es p ?s2) = file_count ?s2 + word_of_nat (length n3)"
          "out (readdir_loop es p ?s2) = out ?s2"
          by auto
        have "file_list (readdir_loop es p ?s2) = (n3 @ n2 @ n1) @ file_list s"
          "file_count (readdir_loop es p ?s2) = file_count s + word_of_nat (length (n3 @ n2 @ n1))"
          "out (readdir_loop es p ?s2) = out s"
          using n1 n2 n3 by simp_all
        then show ?thesis
          unfolding readdir_loop_dir [OF np Some True] by blast
      next
        case False
        from "4.IH"(4) [OF np' Some] False
        obtain n3 where n3: "file_list (readdir_loop es p ?s1) = n3 @ file_list ?s1"
          "file_count (readdir_loop es p ?s1) = file_count ?s1 + word_of_nat (length n3)"
          "out (readdir_loop es p ?s1) = out ?s1"
          by auto
        have "file_list (readdir_loop es p ?s1) = (n3 @ n1) @ file_list s"
          "file_count (readdir_loop es p ?s1) = file_count s + word_of_nat (length (n3 @ n1))"
          "out (readdir_loop es p ?s1) = out s"
          using n1 n3 by simp_all
        then show ?thesis
          unfolding readdir_loop_file [OF np Some False] by blast
      qed
    qed
  qed
qed

lemma openable_tree_Cons:
  "openable_tree (e # es) =
     (if pseudo_entry e then openable_tree es
      else lstat_ans e \<noteq> None \<and> (is_directory e \<longleftrightarrow> opendir_ans e \<noteq> None)
           \<and> (case opendir_ans e of None \<Rightarrow> True | Some sub \<Rightarrow> openable_tree sub)
           \<and> openable_tree es)"
  by (simp add: openable_tree_def objects_Cons split: option.splits)

lemma all_allocated_Cons:
  "all_allocated (e # es) =
     (if pseudo_entry e then all_allocated es
      else malloc_ans e
           \<and> (case opendir_ans e of None \<Rightarrow> True | Some sub \<Rightarrow> all_allocated sub)
           \<and> all_allocated es)"
  by (simp add: all_allocated_def objects_Cons split: option.splits)

text \<open>
  In a tree where every call succeeds, the names of the records the crawler adds are the
  names of the objects beneath the root, last object first.
\<close>

lemma crawl_names:
  "\<forall>es0. a = Some es0 \<longrightarrow> openable_tree es0 \<longrightarrow> all_allocated es0 \<longrightarrow>
     map name (file_list (snd (crawl_filesystem a p s)))
       = rev (map (\<lambda>e. strncpy_buf 256 (d_name e)) (objects es0)) @ map name (file_list s)"
  and readdir_loop_names:
  "openable_tree es \<Longrightarrow> all_allocated es \<Longrightarrow>
     map name (file_list (readdir_loop es p s))
       = rev (map (\<lambda>e. strncpy_buf 256 (d_name e)) (objects es)) @ map name (file_list s)"
proof (induction a p s and es p s rule: crawl_filesystem_readdir_loop.induct)
  case (1 p s)
  show ?case by simp
next
  case (2 es p s)
  then show ?case by simp
next
  case (3 p s)
  show ?case by simp
next
  case (4 e es p s)
  show ?case
  proof (cases "pseudo_entry e")
    case True
    then show ?thesis
      using "4.IH"(1) "4.prems"
      by (simp add: pseudo_entry_def readdir_loop_pseudo openable_tree_Cons all_allocated_Cons
            objects_Cons)
  next
    case False
    note np = this
    have np': "\<not> (d_name e = ''.'' \<or> d_name e = ''..'')"
      using np by (rule not_pseudo)
    from "4.prems"(1) np obtain st where st: "lstat_ans e = Some st"
      by (auto simp: openable_tree_Cons)
    have dir_iff: "S_ISDIR (st_mode st) \<longleftrightarrow> opendir_ans e \<noteq> None"
      using "4.prems"(1) np st by (simp add: openable_tree_Cons is_directory_def)
    have ok: "malloc_ans e"
      using "4.prems"(2) np by (simp add: all_allocated_Cons)
    have tail: "openable_tree es" "all_allocated es"
      using "4.prems" np by (simp_all add: openable_tree_Cons all_allocated_Cons)
    let ?s1 = "progress (add_file_entry (malloc_ans e) (full_path_of p (d_name e)) (d_name e)
                    (st_ino st) (st_size st) (st_mtime st) (st_mode st) s)"
    have s1: "map name (file_list ?s1) = strncpy_buf 256 (d_name e) # map name (file_list s)"
      using ok by (simp add: add_file_entry_fields name_mk_entry)
    show ?thesis
    proof (cases "S_ISDIR (st_mode st)")
      case True
      then obtain sub where sub: "opendir_ans e = Some sub"
        using dir_iff by auto
      have subok: "openable_tree sub" "all_allocated sub"
        using "4.prems" np sub by (simp_all add: openable_tree_Cons all_allocated_Cons)
      let ?s2 = "snd (crawl_filesystem (opendir_ans e) (full_path_of p (d_name e)) ?s1)"
      have s2: "map name (file_list ?s2)
                  = rev (map (\<lambda>e. strncpy_buf 256 (d_name e)) (objects sub)) @ map name (file_list ?s1)"
        using "4.IH"(3) [OF np' st refl True] sub subok by blast
      have s3: "map name (file_list (readdir_loop es p ?s2))
                  = rev (map (\<lambda>e. strncpy_buf 256 (d_name e)) (objects es)) @ map name (file_list ?s2)"
        using "4.IH"(4) [OF np' st tail] True by (simp add: Let_def)
      show ?thesis
        unfolding readdir_loop_dir [OF np st True]
        using s1 s2 s3 np sub by (simp add: objects_Cons)
    next
      case False
      then have sub: "opendir_ans e = None"
        using dir_iff by simp
      have s3: "map name (file_list (readdir_loop es p ?s1))
                  = rev (map (\<lambda>e. strncpy_buf 256 (d_name e)) (objects es)) @ map name (file_list ?s1)"
        using "4.IH"(4) [OF np' st tail] False by (simp add: Let_def)
      show ?thesis
        unfolding readdir_loop_file [OF np st False]
        using s1 s3 np sub by (simp add: objects_Cons)
    qed
  qed
qed

lemma count_objects: "count_nondirs es + count_dirs es = length (objects es)"
  unfolding count_nondirs_def count_dirs_def
  using sum_length_filter_compl [of is_directory "objects es"] by simp

lemma S_ISDIR_samples: "S_ISDIR (st_mode dir_stat)" "\<not> S_ISDIR (st_mode file_stat)"
  by (simp_all add: S_ISDIR_def dir_stat_def file_stat_def)

text \<open>
  C4, as stated. A tree with one regular file, which can be opened and stat'ed
  throughout, has \<open>N = 1\<close> and \<open>M = 0\<close>; when \<open>malloc\<close> has no memory for the record,
  the crawler returns 0 and has produced no record.
\<close>

theorem crawl_count_without_memory:
  "openable_tree lost_tree \<and> count_nondirs lost_tree = 1 \<and> count_dirs lost_tree = 0
   \<and> fst (crawl_filesystem (Some lost_tree) ''/r'' init_prog) = 0
   \<and> length (file_list (snd (crawl_filesystem (Some lost_tree) ''/r'' init_prog))) = 0"
  by (simp add: lost_tree_def openable_tree_def count_nondirs_def count_dirs_def pseudo_entry_def
        is_directory_def S_ISDIR_samples readdir_loop.simps(2) add_file_entry_def init_prog_def)

text \<open>
  C4, amended. For a tree in which every entry can be stat'ed, exactly the directories
  have a listing, and every record can be allocated, with \<open>N\<close> non-directories and \<open>M\<close>
  directories beneath the root: the crawler returns 0 and prepends exactly \<open>N + M\<close>
  records to the list, whose names are those of the objects beneath the root (the last
  visited first); the counter grows by \<open>N + M\<close>. The root and the pseudo-entries, which
  are not among the objects, have no record. In any tree, what \<open>opendir\<close> would answer
  for an entry that is no directory makes no difference to the walk.
\<close>

theorem crawl_counts_objects:
  assumes "openable_tree es" and "all_allocated es"
  shows "fst (crawl_filesystem (Some es) p s) = 0
       \<and> length (file_list (snd (crawl_filesystem (Some es) p s)))
           = length (file_list s) + count_nondirs es + count_dirs es
       \<and> file_count (snd (crawl_filesystem (Some es) p s))
           = file_count s + word_of_nat (count_nondirs es + count_dirs es)
       \<and> map name (take (count_nondirs es + count_dirs es)
                        (file_list (snd (crawl_filesystem (Some es) p s))))
           = rev (map (\<lambda>e. strncpy_buf 256 (d_name e)) (objects es))
       \<and> drop (count_nondirs es + count_dirs es) (file_list (snd (crawl_filesystem (Some es) p s)))
           = file_list s
       \<and> (\<forall>e es'. \<not> is_directory e \<longrightarrow>
             readdir_loop (e # es') p s
               = readdir_loop (Dirent (d_name e) (lstat_ans e) (malloc_ans e) None # es') p s)"
proof -
  let ?r = "snd (crawl_filesystem (Some es) p s)"
  have names: "map name (file_list ?r)
                 = rev (map (\<lambda>e. strncpy_buf 256 (d_name e)) (objects es)) @ map name (file_list s)"
    using crawl_names [of "Some es" p s] assms by blast
  obtain new where new: "file_list ?r = new @ file_list s"
    and cnt: "file_count ?r = file_count s + word_of_nat (length new)"
    using crawl_grows [of "Some es" p s] by blast
  have "length (map name (file_list ?r)) = length (objects es) + length (file_list s)"
    by (simp only: names length_append length_rev length_map)
  then have len: "length new = length (objects es)"
    using new by simp
  have "map name new = rev (map (\<lambda>e. strncpy_buf 256 (d_name e)) (objects es))"
    using names new len by simp
  then show ?thesis
    using new len cnt readdir_loop_ignores_listing [of _ _ p s]
    by (simp add: count_objects add.assoc)
qed

theorem crawl_counts_objects_witness:
  "openable_tree sample_tree \<and> all_allocated sample_tree
   \<and> count_nondirs sample_tree = 2 \<and> count_dirs sample_tree = 1
   \<and> length (file_list (snd (crawl_filesystem (Some sample_tree) ''/r'' init_prog))) = 3
   \<and> map name (take 3 (file_list (snd (crawl_filesystem (Some sample_tree) ''/r'' init_prog))))
       = [''b.txt'', ''d'', ''a.txt'']
   \<and> \<not> is_directory (Dirent ''l'' (Some file_stat) True (Some sample_tree))
   \<and> readdir_loop [Dirent ''l'' (Some file_stat) True (Some sample_tree)] ''/r'' init_prog
       = readdir_loop [Dirent ''l'' (Some file_stat) True None] ''/r'' init_prog"
proof -
  have t: "openable_tree sample_tree" "all_allocated sample_tree"
    by (simp_all add: sample_tree_def openable_tree_def all_allocated_def pseudo_entry_def
          is_directory_def S_ISDIR_samples)
  have n: "count_nondirs sample_tree = 2" "count_dirs sample_tree = 1"
    by (simp_all add: sample_tree_def count_nondirs_def count_dirs_def pseudo_entry_def
          is_directory_def S_ISDIR_samples)
  have o: "map (\<lambda>e. strncpy_buf 256 (d_name e)) (objects sample_tree) = [''a.txt'', ''d'', ''b.txt'']"
    by (simp add: sample_tree_def pseudo_entry_def strncpy_buf_def)
  have i: "length (file_list init_prog) = 0"
    by (simp add: init_prog_def)
  have a: "(0::nat) + 2 + 1 = 3" "(2::nat) + 1 = 3"
    by simp_all
  have r: "rev [''a.txt'', ''d'', ''b.txt''] = [''b.txt'', ''d'', ''a.txt'']"
    by simp
  have nd: "\<not> is_directory (Dirent ''l'' (Some file_stat) True (Some sample_tree))"
    by (simp add: is_directory_def S_ISDIR_samples)
  note th = crawl_counts_objects [OF t, of "''/r''" init_prog, unfolded n o i a r]
  have "readdir_loop [Dirent ''l'' (Some file_stat) True (Some sample_tree)] ''/r'' init_prog
          = readdir_loop [Dirent ''l'' (Some file_stat) True None] ''/r'' init_prog"
    using th nd by force
  then show ?thesis
    using th t n nd by blast
qed

section \<open>Properties of the probe and of \<open>main\<close>\<close>

text \<open>\<open>finish\<close> ends with code 0 when the time of every record can be converted, and is killed otherwise.\<close>

lemma fst_finish:
  "fst (finish ev format s)
     = (if list_all (convertible (libc_strftime_gmtime ev)) (file_list s) then Exited 0 else Killed)"
  using emitted_all [of "libc_strftime_gmtime ev" "file_list s"]
  by (simp add: finish_def Let_def output_csv_text output_json_text)

text \<open>What \<open>finish\<close> prints when the format is not \<open>csv\<close>.\<close>

lemma finish_json_out:
  "format \<noteq> ''csv'' \<Longrightarrow>
   out (snd (finish ev format s))
     = out s @ json_head_text (sdec (sint (file_count s))) (sdec (time_ans ev))
       @ joined json_sep_text
           (map (json_text_of (abi_char_signed ev) (libc_strftime_gmtime ev))
              (emitted (libc_strftime_gmtime ev) (file_list s)))
       @ (if emitted (libc_strftime_gmtime ev) (file_list s) \<noteq> file_list s
          then (if emitted (libc_strftime_gmtime ev) (file_list s) = [] then [] else json_sep_text)
          else json_foot_text)"
  by (simp add: finish_def Let_def output_json_text)

lemma search_probe_fails:
  "\<not> open_ans ev \<or> \<not> ioctl_ans ev \<Longrightarrow>
   search_btrfs_metadata ev p s = (- 1, s\<lparr>err := err s @ probe_message ev p\<rparr>)"
  by (auto simp: search_btrfs_metadata_def probe_message_def)

lemma fst_search:
  "fst (search_btrfs_metadata ev p s)
     = (if open_ans ev \<and> ioctl_ans ev \<and> opendir_probe ev \<noteq> None then 0 else - 1)"
  by (simp add: search_btrfs_metadata_def fst_crawl_filesystem)

lemma getopt_loop_valid:
  "list_all valid_format_opt opts \<Longrightarrow>
   getopt_loop argv0 opts format s = Inr (chosen_format format opts)"
proof (induction opts arbitrary: format)
  case Nil
  show ?case by simp
next
  case (Cons r rs)
  then show ?case
    by (cases r) (auto simp: valid_format_opt_def)
qed

lemma getopt_loop_error:
  "Opt_h \<notin> set opts \<Longrightarrow> \<not> list_all valid_format_opt opts \<Longrightarrow>
   \<exists>s'. getopt_loop argv0 opts format s = Inl (Exited 1, s')"
proof (induction opts arbitrary: format)
  case Nil
  then show ?case by simp
next
  case (Cons r rs)
  then show ?case
    by (cases r) (auto simp: valid_format_opt_def)
qed

lemma getopt_loop_format_error:
  "list_all format_opt opts \<Longrightarrow> \<not> list_all valid_format_opt opts \<Longrightarrow>
   \<exists>s'. getopt_loop argv0 opts format s = Inl (Exited 1, s') \<and> out s' = out s"
proof (induction opts arbitrary: format)
  case Nil
  then show ?case by simp
next
  case (Cons r rs)
  then show ?case
    by (cases r) (auto simp: valid_format_opt_def format_opt_def)
qed

text \<open>
  Once the options are read and the path is a directory: when a listing can be produced,
  \<open>main\<close> hands the gathered store to \<open>finish\<close>; when none can, it returns 1.
\<close>

lemma main_listing:
  assumes "getopt_loop argv0 opts ''json'' init_prog = Inr format"
    and "path_is_directory ev" and "listing_available ev"
  shows "main ev argv0 opts (p # rest) = finish ev format (gathered ev p)"
proof -
  obtain st where st: "stat_ans ev = Some st" and dir: "S_ISDIR (st_mode st)"
    using assms(2) by (auto simp: path_is_directory_def split: option.splits)
  obtain r1 s1 where s: "search_btrfs_metadata ev p init_prog = (r1, s1)"
    by (cases "search_btrfs_metadata ev p init_prog")
  have r1: "r1 = (if open_ans ev \<and> ioctl_ans ev \<and> opendir_probe ev \<noteq> None then 0 else - 1)"
    using fst_search [of ev p init_prog] s by simp
  obtain r2 s2 where c: "crawl_filesystem (opendir_main ev) p s1 = (r2, s2)"
    by (cases "crawl_filesystem (opendir_main ev) p s1")
  have r2: "r2 = (if opendir_main ev = None then - 1 else 0)"
    using fst_crawl_filesystem [of "opendir_main ev" p s1] c by simp
  show ?thesis
  proof (cases "open_ans ev \<and> ioctl_ans ev \<and> opendir_probe ev \<noteq> None")
    case True
    then have "r1 = 0"
      using r1 by simp
    then show ?thesis
      using assms(1) st dir s by (simp add: main_def gathered_def)
  next
    case False
    then have n1: "r1 \<noteq> 0"
      using r1 by simp
    have "opendir_main ev \<noteq> None"
      using assms(3) False by (auto simp: listing_available_def)
    then have "r2 = 0"
      using r2 by simp
    then show ?thesis
      using assms(1) st dir s c n1 by (simp add: main_def gathered_def)
  qed
qed

lemma main_after_options:
  assumes "getopt_loop argv0 opts ''json'' init_prog = Inr format"
  shows "fst (main ev argv0 opts args)
           = (if args \<noteq> [] \<and> path_is_directory ev \<and> listing_available ev
              then (if list_all (convertible (libc_strftime_gmtime ev))
                         (file_list (gathered ev (hd args)))
                    then Exited 0 else Killed)
              else Exited 1)"
proof (cases args)
  case Nil
  then show ?thesis using assms by (simp add: main_def)
next
  case (Cons p rest)
  show ?thesis
  proof (cases "stat_ans ev")
    case None
    then show ?thesis using assms Cons by (simp add: main_def path_is_directory_def)
  next
    case (Some st)
    show ?thesis
    proof (cases "S_ISDIR (st_mode st)")
      case False
      then show ?thesis using assms Cons Some by (simp add: main_def path_is_directory_def)
    next
      case True
      then have d: "path_is_directory ev"
        using Some by (simp add: path_is_directory_def)
      show ?thesis
      proof (cases "listing_available ev")
        case True
        show ?thesis
          using main_listing [OF assms d True, of p rest] d True Cons by (simp add: fst_finish)
      next
        case False
        obtain r1 s1 where s: "search_btrfs_metadata ev p init_prog = (r1, s1)"
          by (cases "search_btrfs_metadata ev p init_prog")
        have r1: "r1 = - 1"
          using fst_search [of ev p init_prog] s False by (auto simp: listing_available_def)
        have n: "opendir_main ev = None"
          using False by (simp add: listing_available_def)
        show ?thesis
          using assms Cons Some \<open>S_ISDIR (st_mode st)\<close> s r1 n False by (simp add: main_def)
      qed
    qed
  qed
qed

text \<open>A path that is no directory: an error on standard error, nothing on standard output.\<close>

lemma main_not_directory:
  assumes "getopt_loop argv0 opts ''json'' init_prog = Inr format" and "args \<noteq> []"
    and "stat_ans ev \<noteq> None" and "\<not> path_is_directory ev"
  shows "out (snd (main ev argv0 opts args)) = []"
proof -
  obtain p rest where a: "args = p # rest"
    using assms(2) by (cases args) auto
  obtain st where st: "stat_ans ev = Some st"
    using assms(3) by auto
  have "\<not> S_ISDIR (st_mode st)"
    using assms(4) st by (simp add: path_is_directory_def)
  then show ?thesis
    using assms(1) a st by (simp add: main_def init_prog_def)
qed

lemma search_grows:
  "\<exists>new. file_list (snd (search_btrfs_metadata ev p s)) = new @ file_list s
        \<and> file_count (snd (search_btrfs_metadata ev p s)) = file_count s + word_of_nat (length new)
        \<and> out (snd (search_btrfs_metadata ev p s)) = out s"
proof (cases "open_ans ev \<and> ioctl_ans ev")
  case False
  then show ?thesis
    by (auto simp: search_btrfs_metadata_def)
next
  case True
  let ?s = "s\<lparr>err := err s
                 @ ''Warning: Direct metadata access failed, falling back to filesystem crawl...''
                 @ [nl]\<rparr>"
  have "search_btrfs_metadata ev p s = crawl_filesystem (opendir_probe ev) p ?s"
    using True by (simp add: search_btrfs_metadata_def)
  then show ?thesis
    using crawl_grows [of "opendir_probe ev" p ?s] by simp
qed

text \<open>
  In the store \<open>main\<close> hands to the emitter the counter is the length of the list, as a
  32-bit value, and nothing has been printed yet.
\<close>

lemma gathered_counter:
  "file_count (gathered ev p) = word_of_nat (length (file_list (gathered ev p)))"
  "out (gathered ev p) = []"
proof -
  obtain r1 s1 where s: "search_btrfs_metadata ev p init_prog = (r1, s1)"
    by (cases "search_btrfs_metadata ev p init_prog")
  obtain n1 where n1: "file_list s1 = n1 @ file_list init_prog"
    "file_count s1 = file_count init_prog + word_of_nat (length n1)" "out s1 = out init_prog"
    using search_grows [of ev p init_prog] s by auto
  have i1: "file_count s1 = word_of_nat (length (file_list s1))" "out s1 = []"
    using n1 by (simp_all add: init_prog_def)
  obtain n2 where n2: "file_list (snd (crawl_filesystem (opendir_main ev) p s1)) = n2 @ file_list s1"
    "file_count (snd (crawl_filesystem (opendir_main ev) p s1))
       = file_count s1 + word_of_nat (length n2)"
    "out (snd (crawl_filesystem (opendir_main ev) p s1)) = out s1"
    using crawl_grows [of "opendir_main ev" p s1] by auto
  have i2: "file_count (snd (crawl_filesystem (opendir_main ev) p s1))
              = word_of_nat (length (file_list (snd (crawl_filesystem (opendir_main ev) p s1))))"
    "out (snd (crawl_filesystem (opendir_main ev) p s1)) = []"
    using n2 i1 by simp_all
  show "file_count (gathered ev p) = word_of_nat (length (file_list (gathered ev p)))"
    using s i1 i2 by (simp add: gathered_def)
  show "out (gathered ev p) = []"
    using s i1 i2 by (simp add: gathered_def)
qed

text \<open>
  A run without a help request that ends with code 0 has handed the gathered store to
  \<open>finish\<close>, and the time of every record in it can be converted.
\<close>

lemma main_reaches_finish:
  assumes "Opt_h \<notin> set opts" and "fst (main ev argv0 opts args) = Exited 0"
  shows "main ev argv0 opts args = finish ev (chosen_format ''json'' opts) (gathered ev (hd args))
       \<and> list_all (convertible (libc_strftime_gmtime ev)) (file_list (gathered ev (hd args)))"
proof -
  have v: "list_all valid_format_opt opts"
  proof (rule ccontr)
    assume "\<not> list_all valid_format_opt opts"
    then obtain s' where "getopt_loop argv0 opts ''json'' init_prog = Inl (Exited 1, s')"
      using getopt_loop_error [OF assms(1)] by blast
    then have "fst (main ev argv0 opts args) = Exited 1"
      by (simp add: main_def)
    then show False
      using assms(2) by simp
  qed
  have g: "getopt_loop argv0 opts ''json'' init_prog = Inr (chosen_format ''json'' opts)"
    using v by (rule getopt_loop_valid)
  have c: "args \<noteq> [] \<and> path_is_directory ev \<and> listing_available ev
         \<and> list_all (convertible (libc_strftime_gmtime ev)) (file_list (gathered ev (hd args)))"
    using main_after_options [OF g, of ev args] assms(2) by (simp split: if_splits)
  obtain p rest where a: "args = p # rest"
    using c by (cases args) auto
  show ?thesis
    using main_listing [OF g, of ev p rest] c a by simp
qed

text \<open>
  When a directory met during the walk cannot be opened, its own record is still added and
  the loop goes on with the entries after it, from the state the entries before it left;
  the return value of the nested call is not looked at. The crawl of a listing with such a
  directory returns 0 with the records of the entries before it, its own and those of the
  entries after it, and \<open>main\<close> hands them to the emitter (\<open>main_listing\<close>).
\<close>

lemma unreadable_directory_loop:
  assumes "\<not> pseudo_entry e" and "lstat_ans e = Some st" and "S_ISDIR (st_mode st)"
    and "opendir_ans e = None"
  shows "readdir_loop (pre @ e # post) p s
           = readdir_loop post p
               (progress (add_file_entry (malloc_ans e) (full_path_of p (d_name e)) (d_name e)
                            (st_ino st) (st_size st) (st_mtime st) (st_mode st)
                            (readdir_loop pre p s)))"
proof -
  have "readdir_loop (e # post) p (readdir_loop pre p s)
          = readdir_loop post p
              (progress (add_file_entry (malloc_ans e) (full_path_of p (d_name e)) (d_name e)
                           (st_ino st) (st_size st) (st_mtime st) (st_mode st)
                           (readdir_loop pre p s)))"
    using readdir_loop_dir [OF assms(1,2,3)] assms(4) by simp
  then show ?thesis
    by (simp add: readdir_loop_append)
qed

lemma unreadable_directory_crawl:
  assumes "\<not> pseudo_entry e" and "lstat_ans e = Some st" and "S_ISDIR (st_mode st)"
    and "opendir_ans e = None"
  shows "crawl_filesystem (Some (pre @ e # post)) p s
           = (0, readdir_loop post p
                   (progress (add_file_entry (malloc_ans e) (full_path_of p (d_name e)) (d_name e)
                                (st_ino st) (st_size st) (st_mtime st) (st_mode st)
                                (readdir_loop pre p
                                   (s\<lparr>err := err s @ ''Crawling filesystem from '' @ p @ ''...''
                                                  @ [nl]\<rparr>)))))"
  using unreadable_directory_loop [OF assms] by simp

lemma sample_run:
  "getopt_loop ''indexer'' [] ''json'' init_prog = Inr ''json''"
  "path_is_directory sample_env" "listing_available sample_env"
  "path_is_directory late_env" "listing_available late_env"
  by (simp_all add: path_is_directory_def listing_available_def late_env_def sample_env_def
        S_ISDIR_samples)

lemma gathered_sample:
  "file_list (gathered sample_env ''/r'')
     = [mk_entry ''/r/d'' ''d'' 12 4096 0 0x41ED, mk_entry ''/r/a.txt'' ''a.txt'' 11 2 0 0x81A4]"
  by (simp add: gathered_def search_btrfs_metadata_def sample_env_def readdir_loop.simps(2)
        S_ISDIR_samples add_file_entry_fields init_prog_def full_path_of_def dir_stat_def
        file_stat_def S_ISDIR_def Let_def)


lemma emitted_gathered_sample:
  "emitted sample_time (file_list (gathered sample_env ''/r'')) = file_list (gathered sample_env ''/r'')"
  by (simp add: gathered_sample emitted_Cons convertible_def mk_entry_def sample_time_0
        emitted_def)

lemma sample_env_time: "libc_strftime_gmtime sample_env = sample_time"
  by (simp add: sample_env_def)

lemma convertible_gathered_sample:
  "list_all (convertible sample_time) (file_list (gathered sample_env ''/r''))"
  using emitted_all [of sample_time "file_list (gathered sample_env ''/r'')"]
    emitted_gathered_sample
  by simp



text \<open>
  C8, as stated. With the option \<open>-h\<close> before a path that names a regular file, the
  process prints the usage on the standard output and exits with code 0; with an unknown
  option it exits with code 1, but the usage is on the standard output as well.
\<close>

theorem help_precedes_path_check:
  "stat_ans (sample_env\<lparr>stat_ans := Some file_stat\<rparr>) = Some file_stat
   \<and> \<not> S_ISDIR (st_mode file_stat)
   \<and> fst (main (sample_env\<lparr>stat_ans := Some file_stat\<rparr>) ''indexer'' [Opt_h] [''/r/a.txt''])
       = Exited 0
   \<and> out (snd (main (sample_env\<lparr>stat_ans := Some file_stat\<rparr>) ''indexer'' [Opt_h] [''/r/a.txt'']))
       = out (print_usage ''indexer'' init_prog)
   \<and> fst (main (sample_env\<lparr>stat_ans := Some file_stat\<rparr>) ''indexer'' [Opt_other []] [''/r/a.txt''])
       = Exited 1
   \<and> out (snd (main (sample_env\<lparr>stat_ans := Some file_stat\<rparr>) ''indexer'' [Opt_other []]
                 [''/r/a.txt'']))
       = out (print_usage ''indexer'' init_prog)
   \<and> out (print_usage ''indexer'' init_prog) \<noteq> []"
  by (simp add: main_def sample_env_def S_ISDIR_samples print_usage_def init_prog_def)

text \<open>
  C8, amended. In a run without a help request: the exit code is 0 when every option is a
  valid format selection, a path argument is present, the path exists and is a directory,
  a listing can be produced, however many records it has, and the time of every record
  gathered can be converted, so that the emitter runs to its end; it is 1 when an option
  is no valid format selection (invalid format, unknown option), the path is missing, does
  not exist or is no directory, or no listing can be produced. When moreover every option
  is a format selection and the path names an existing object that is no directory, the
  exit code is 1 and nothing is written to the standard output.
\<close>

theorem exit_codes:
  assumes "Opt_h \<notin> set opts"
  shows "(list_all valid_format_opt opts \<and> args \<noteq> [] \<and> path_is_directory ev
            \<and> listing_available ev
            \<and> list_all (convertible (libc_strftime_gmtime ev)) (file_list (gathered ev (hd args)))
            \<longrightarrow> fst (main ev argv0 opts args) = Exited 0)
       \<and> (\<not> (list_all valid_format_opt opts \<and> args \<noteq> [] \<and> path_is_directory ev
               \<and> listing_available ev)
            \<longrightarrow> fst (main ev argv0 opts args) = Exited 1)
       \<and> (list_all format_opt opts \<and> args \<noteq> [] \<and> stat_ans ev \<noteq> None \<and> \<not> path_is_directory ev
            \<longrightarrow> fst (main ev argv0 opts args) = Exited 1 \<and> out (snd (main ev argv0 opts args)) = [])"
proof (cases "list_all valid_format_opt opts")
  case True
  have g: "getopt_loop argv0 opts ''json'' init_prog = Inr (chosen_format ''json'' opts)"
    using True by (rule getopt_loop_valid)
  show ?thesis
    using True main_after_options [OF g, of ev args] main_not_directory [OF g, of args ev]
    by simp
next
  case False
  obtain s' where e: "getopt_loop argv0 opts ''json'' init_prog = Inl (Exited 1, s')"
    using getopt_loop_error [OF assms False] by blast
  have code: "fst (main ev argv0 opts args) = Exited 1"
    using e by (simp add: main_def)
  have "out (snd (main ev argv0 opts args)) = []" if fo: "list_all format_opt opts"
  proof -
    obtain s'' where "getopt_loop argv0 opts ''json'' init_prog = Inl (Exited 1, s'')"
      and "out s'' = out init_prog"
      using getopt_loop_format_error [OF fo False] by blast
    then show ?thesis
      by (simp add: main_def init_prog_def)
  qed
  then show ?thesis
    using False code by simp
qed

theorem exit_codes_witness:
  "Opt_h \<notin> set [Opt_f ''csv'']
   \<and> list_all format_opt [Opt_f ''csv'']
   \<and> stat_ans (sample_env\<lparr>stat_ans := Some file_stat\<rparr>) \<noteq> None
   \<and> \<not> path_is_directory (sample_env\<lparr>stat_ans := Some file_stat\<rparr>)
   \<and> fst (main (sample_env\<lparr>stat_ans := Some file_stat\<rparr>) ''indexer'' [Opt_f ''csv''] [''/r/a.txt''])
       = Exited 1
   \<and> out (snd (main (sample_env\<lparr>stat_ans := Some file_stat\<rparr>) ''indexer'' [Opt_f ''csv'']
                 [''/r/a.txt''])) = []
   \<and> list_all valid_format_opt [Opt_f ''csv'']
   \<and> path_is_directory (sample_env\<lparr>opendir_main := Some []\<rparr>)
   \<and> listing_available (sample_env\<lparr>opendir_main := Some []\<rparr>)
   \<and> file_list (gathered (sample_env\<lparr>opendir_main := Some []\<rparr>) ''/r'') = []
   \<and> fst (main (sample_env\<lparr>opendir_main := Some []\<rparr>) ''indexer'' [Opt_f ''csv''] [''/r''])
       = Exited 0
   \<and> list_all (convertible (libc_strftime_gmtime sample_env)) (file_list (gathered sample_env ''/r''))
   \<and> fst (main sample_env ''indexer'' [Opt_f ''csv''] [''/r'']) = Exited 0
   \<and> fst (main sample_env ''indexer'' [Opt_f ''xml''] [''/r'']) = Exited 1
   \<and> fst (main sample_env ''indexer'' [Opt_f ''csv''] []) = Exited 1
   \<and> fst (main (sample_env\<lparr>stat_ans := None\<rparr>) ''indexer'' [Opt_f ''csv''] [''/r'']) = Exited 1
   \<and> fst (main (sample_env\<lparr>opendir_main := None\<rparr>) ''indexer'' [Opt_f ''csv''] [''/r''])
       = Exited 1"
proof -
  have h: "Opt_h \<notin> set [Opt_f ''csv'']" "Opt_h \<notin> set [Opt_f ''xml'']"
    by simp_all
  have v: "list_all valid_format_opt [Opt_f ''csv'']" "\<not> list_all valid_format_opt [Opt_f ''xml'']"
    "list_all format_opt [Opt_f ''csv'']"
    by (simp_all add: valid_format_opt_def format_opt_def)
  have d: "path_is_directory sample_env" "\<not> path_is_directory (sample_env\<lparr>stat_ans := Some file_stat\<rparr>)"
    "\<not> path_is_directory (sample_env\<lparr>stat_ans := None\<rparr>)"
    "path_is_directory (sample_env\<lparr>opendir_main := Some []\<rparr>)"
    "path_is_directory (sample_env\<lparr>opendir_main := None\<rparr>)"
    "stat_ans (sample_env\<lparr>stat_ans := Some file_stat\<rparr>) \<noteq> None"
    by (simp_all add: path_is_directory_def sample_env_def S_ISDIR_samples)
  have l: "listing_available (sample_env\<lparr>opendir_main := Some []\<rparr>)"
    "\<not> listing_available (sample_env\<lparr>opendir_main := None\<rparr>)"
    "listing_available sample_env"
    by (simp_all add: listing_available_def sample_env_def)
  have g: "file_list (gathered (sample_env\<lparr>opendir_main := Some []\<rparr>) ''/r'') = []"
    by (simp add: gathered_def search_btrfs_metadata_def sample_env_def init_prog_def)
  have c: "list_all (convertible (libc_strftime_gmtime sample_env))
             (file_list (gathered sample_env ''/r''))"
    by (simp add: sample_env_time convertible_gathered_sample)
  have c0: "list_all (convertible (libc_strftime_gmtime (sample_env\<lparr>opendir_main := Some []\<rparr>)))
              (file_list (gathered (sample_env\<lparr>opendir_main := Some []\<rparr>) (hd [''/r''])))"
    by (simp add: g)
  have ne: "[''/r''] \<noteq> ([] :: string list)" "[''/r/a.txt''] \<noteq> ([] :: string list)"
    by simp_all
  note a = exit_codes [OF h(1), of "[''/r/a.txt'']" "sample_env\<lparr>stat_ans := Some file_stat\<rparr>"
             "''indexer''", THEN conjunct2, THEN conjunct2, rule_format, OF conjI [OF v(3)
             conjI [OF ne(2) conjI [OF d(6) d(2)]]]]
  note b = exit_codes [OF h(1), of "[''/r'']" "sample_env\<lparr>opendir_main := Some []\<rparr>"
             "''indexer''",
             THEN conjunct1, rule_format, OF conjI [OF v(1) conjI [OF ne(1) conjI [OF d(4)
             conjI [OF l(1) c0]]]]]
  have c1: "list_all (convertible (libc_strftime_gmtime sample_env))
              (file_list (gathered sample_env (hd [''/r''])))"
    using c by simp
  note b' = exit_codes [OF h(1), of "[''/r'']" "sample_env"
             "''indexer''",
             THEN conjunct1, rule_format, OF conjI [OF v(1) conjI [OF ne(1) conjI [OF d(1)
             conjI [OF l(3) c1]]]]]
  have x1: "fst (main sample_env ''indexer'' [Opt_f ''xml''] [''/r'']) = Exited 1"
    using exit_codes [OF h(2), of "[''/r'']" "sample_env"
             "''indexer''"] v(2) by blast
  have x2: "fst (main sample_env ''indexer'' [Opt_f ''csv''] []) = Exited 1"
    using exit_codes [OF h(1), of "[]" "sample_env"
             "''indexer''"] by blast
  have x3: "fst (main (sample_env\<lparr>stat_ans := None\<rparr>) ''indexer'' [Opt_f ''csv''] [''/r'']) = Exited 1"
    using exit_codes [OF h(1), of "[''/r'']" "sample_env\<lparr>stat_ans := None\<rparr>"
             "''indexer''"] d(3)
    by blast
  have x4: "fst (main (sample_env\<lparr>opendir_main := None\<rparr>) ''indexer'' [Opt_f ''csv''] [''/r''])
              = Exited 1"
    using exit_codes [OF h(1), of "[''/r'']" "sample_env\<lparr>opendir_main := None\<rparr>"
             "''indexer''"] l(2)
    by blast
  show ?thesis
    using a b b' x1 x2 x3 x4 h(1) v(1,3) d(2,4,6) l(1) g c by blast
qed

text \<open>
  C7, as stated. When the probe cannot open the path, \<open>search_btrfs_metadata\<close> writes an
  error line to the standard error stream, which was empty before.
\<close>

theorem probe_failure_is_reported:
  "\<not> open_ans sample_env
   \<and> err init_prog = []
   \<and> err (snd (search_btrfs_metadata sample_env ''/r'' init_prog))
       = ''Error: Cannot open /r: Permission denied'' @ [nl]"
  by (simp add: search_btrfs_metadata_def sample_env_def init_prog_def)

text \<open>
  C7, amended. When the probe cannot open the path or its query fails,
  \<open>search_btrfs_metadata\<close> returns -1 and changes nothing but the standard error stream,
  to which it appends one line that starts with \<open>Error: \<close>. In a run with valid options on
  a directory, \<open>main\<close> then starts the crawler on the same path: when the root cannot be
  opened the run ends with code 1, otherwise with the emitter's output for what the crawler
  gathered.
\<close>

theorem probe_failure_falls_back:
  assumes "\<not> open_ans ev \<or> \<not> ioctl_ans ev"
  shows "search_btrfs_metadata ev p s = (- 1, s\<lparr>err := err s @ probe_message ev p\<rparr>)
       \<and> take 7 (probe_message ev p) = ''Error: ''
       \<and> (list_all valid_format_opt opts \<and> path_is_directory ev \<longrightarrow>
            main ev argv0 opts (p # rest) =
              (if opendir_main ev = None
               then (Exited 1, init_prog\<lparr>err := probe_message ev p
                                         @ ''Error: Failed to process filesystem.'' @ [nl]\<rparr>)
               else finish ev (chosen_format ''json'' opts)
                      (snd (crawl_filesystem (opendir_main ev) p
                              (init_prog\<lparr>err := probe_message ev p\<rparr>)))))"
proof -
  have s: "search_btrfs_metadata ev p s = (- 1, s\<lparr>err := err s @ probe_message ev p\<rparr>)" for s
    using assms by (rule search_probe_fails)
  have m: "take 7 (probe_message ev p) = ''Error: ''"
    by (simp add: probe_message_def)
  have "main ev argv0 opts (p # rest) =
          (if opendir_main ev = None
           then (Exited 1, init_prog\<lparr>err := probe_message ev p
                                     @ ''Error: Failed to process filesystem.'' @ [nl]\<rparr>)
           else finish ev (chosen_format ''json'' opts)
                  (snd (crawl_filesystem (opendir_main ev) p
                          (init_prog\<lparr>err := probe_message ev p\<rparr>))))"
    if v: "list_all valid_format_opt opts" and d: "path_is_directory ev"
  proof -
    have g: "getopt_loop argv0 opts ''json'' init_prog = Inr (chosen_format ''json'' opts)"
      using v by (rule getopt_loop_valid)
    obtain st where st: "stat_ans ev = Some st" and dir: "S_ISDIR (st_mode st)"
      using d by (auto simp: path_is_directory_def split: option.splits)
    have e: "err init_prog = []"
      by (simp add: init_prog_def)
    show ?thesis
    proof (cases "opendir_main ev")
      case None
      then show ?thesis
        using g st dir s [of init_prog] e by (simp add: main_def)
    next
      case (Some es)
      then show ?thesis
        using g st dir s [of init_prog] e by (simp add: main_def split: prod.splits)
    qed
  qed
  then show ?thesis
    using s m by blast
qed

theorem probe_failure_falls_back_witness:
  "\<not> open_ans sample_env
   \<and> list_all valid_format_opt [] \<and> path_is_directory sample_env
   \<and> search_btrfs_metadata sample_env ''/r'' init_prog
       = (- 1, init_prog\<lparr>err := ''Error: Cannot open /r: Permission denied'' @ [nl]\<rparr>)
   \<and> fst (main sample_env ''indexer'' [] [''/r'']) = Exited 0"
proof -
  have h: "\<not> open_ans sample_env \<or> \<not> ioctl_ans sample_env"
    by (simp add: sample_env_def)
  have h0: "\<not> open_ans sample_env"
    by (simp add: sample_env_def)
  have d: "list_all valid_format_opt []" "path_is_directory sample_env"
    by (simp_all add: path_is_directory_def sample_env_def S_ISDIR_samples)
  have m: "probe_message sample_env ''/r'' = ''Error: Cannot open /r: Permission denied'' @ [nl]"
    by (simp add: probe_message_def sample_env_def)
  have o: "opendir_main sample_env \<noteq> None"
    by (simp add: sample_env_def)
  have e: "err init_prog = []"
    by (simp add: init_prog_def)
  have g: "snd (crawl_filesystem (opendir_main sample_env) ''/r''
                  (init_prog\<lparr>err := ''Error: Cannot open /r: Permission denied'' @ [nl]\<rparr>))
             = gathered sample_env ''/r''"
    by (simp add: gathered_def search_btrfs_metadata_def sample_env_def init_prog_def)
  have c: "list_all (convertible (libc_strftime_gmtime sample_env))
             (file_list (gathered sample_env ''/r''))"
    by (simp add: sample_env_time convertible_gathered_sample)
  have f: "fst (finish sample_env ''json'' (gathered sample_env ''/r'')) = Exited 0"
    using c by (simp add: fst_finish)
  show ?thesis
    using probe_failure_falls_back [OF h, of "''/r''" init_prog "[]" "''indexer''" "[]"] d m o e g f h0
    by simp
qed

text \<open>
  C10. When \<open>malloc\<close> returns NULL, \<open>add_file_entry\<close> returns the state it was given:
  list, counter and both streams are unchanged. A run on a root with one file, for whose
  record there is no memory, ends with exit code 0 and prints \<open>total_files\<close> 0 and an empty
  \<open>files\<close> array.
\<close>

theorem allocation_failure_drops_record:
  "add_file_entry False p n i sz mt md s = s
   \<and> count_nondirs lost_tree = 1
   \<and> fst (main (sample_env\<lparr>opendir_main := Some lost_tree\<rparr>) ''indexer'' [] [''/r'']) = Exited 0
   \<and> out (snd (main (sample_env\<lparr>opendir_main := Some lost_tree\<rparr>) ''indexer'' [] [''/r'']))
       = json_head_text ''0'' ''0'' @ json_foot_text"
proof -
  have a: "add_file_entry False p n i sz mt md s = s"
    by (simp add: add_file_entry_def)
  have c: "count_nondirs lost_tree = 1"
    by (simp add: lost_tree_def count_nondirs_def pseudo_entry_def is_directory_def S_ISDIR_samples)
  have m: "main (sample_env\<lparr>opendir_main := Some lost_tree\<rparr>) ''indexer'' [] [''/r'']
             = finish (sample_env\<lparr>opendir_main := Some lost_tree\<rparr>) ''json''
                 (snd (crawl_filesystem (Some lost_tree) ''/r''
                        (init_prog\<lparr>err := ''Error: Cannot open /r: Permission denied'' @ [nl]\<rparr>)))"
    by (simp add: main_def sample_env_def search_btrfs_metadata_def S_ISDIR_samples init_prog_def
          split: prod.splits)
  have l: "file_list (snd (crawl_filesystem (Some lost_tree) ''/r''
                        (init_prog\<lparr>err := ''Error: Cannot open /r: Permission denied'' @ [nl]\<rparr>))) = []"
    "file_count (snd (crawl_filesystem (Some lost_tree) ''/r''
                        (init_prog\<lparr>err := ''Error: Cannot open /r: Permission denied'' @ [nl]\<rparr>))) = 0"
    "out (snd (crawl_filesystem (Some lost_tree) ''/r''
                        (init_prog\<lparr>err := ''Error: Cannot open /r: Permission denied'' @ [nl]\<rparr>))) = []"
    by (simp_all add: lost_tree_def readdir_loop.simps(2) S_ISDIR_samples add_file_entry_def
          init_prog_def)
  have ne: "''json'' \<noteq> ''csv''"
    by simp
  have f: "fst (main (sample_env\<lparr>opendir_main := Some lost_tree\<rparr>) ''indexer'' [] [''/r''])
             = Exited 0"
    unfolding m fst_finish l by simp
  have o: "out (snd (main (sample_env\<lparr>opendir_main := Some lost_tree\<rparr>) ''indexer'' [] [''/r'']))
             = json_head_text ''0'' ''0'' @ json_foot_text"
    unfolding m finish_json_out [OF ne] l
    by (simp add: emitted_def sample_env_def sdec_def dec_samples)
  show ?thesis
    using a c f o by blast
qed

section \<open>The counter in the output\<close>

lemma sdec_small_count: "n < 2 ^ 31 \<Longrightarrow> sdec (sint (word_of_nat n :: 32 word)) = dec n"
  by (simp add: sint_small_count sdec_def)

text \<open>
  When the time of every record can be converted, \<open>output_json\<close> runs to its end and
  prints the header with the counter, one object for each record of the list, and the footer.
\<close>

lemma output_json_complete:
  assumes "list_all (convertible tm) (file_list s)"
  shows "output_json sg tm now s
           = (False,
              s\<lparr>out := out s @ json_head_text (sdec (sint (file_count s))) (sdec now)
                       @ joined json_sep_text (map (json_text_of sg tm) (file_list s))
                       @ json_foot_text\<rparr>)"
proof -
  have "emitted tm (file_list s) = file_list s"
    using assms by (simp add: emitted_all)
  then show ?thesis
    using output_json_text [of sg tm now s] by simp
qed

lemma run_adds_replicate:
  assumes "c_malloc c"
  shows "file_list (run_adds (replicate n c) init_prog) = replicate n (entry_of c)"
    and "file_count (run_adds (replicate n c) init_prog) = word_of_nat n"
    and "out (run_adds (replicate n c) init_prog) = []"
proof -
  have f: "filter c_malloc (replicate n c) = replicate n c"
    using assms by simp
  show "file_list (run_adds (replicate n c) init_prog) = replicate n (entry_of c)"
    by (simp only: file_list_run_adds f map_replicate rev_replicate init_prog_def prog.simps
          append_Nil2)
  show "file_count (run_adds (replicate n c) init_prog) = word_of_nat n"
    by (simp only: file_count_run_adds f length_replicate init_prog_def prog.simps add_0)
  show "out (run_adds (replicate n c) init_prog) = []"
    by (simp only: out_run_adds init_prog_def prog.simps)
qed

lemma output_json_replicate:
  assumes "c_malloc c" and "convertible tm (entry_of c)"
  shows "output_json sg tm now (run_adds (replicate n c) init_prog)
           = (False,
              (run_adds (replicate n c) init_prog)
                \<lparr>out := json_head_text (sdec (sint (word_of_nat n :: 32 word))) (sdec now)
                         @ joined json_sep_text (replicate n (json_text_of sg tm (entry_of c)))
                         @ json_foot_text\<rparr>)"
proof -
  have "list_all (convertible tm) (replicate n (entry_of c))"
    using assms(2) by (simp add: list_all_iff)
  then have "list_all (convertible tm) (file_list (run_adds (replicate n c) init_prog))"
    by (simp only: run_adds_replicate(1) [OF assms(1)])
  then show ?thesis
    using output_json_complete [of tm "run_adds (replicate n c) init_prog" sg now]
    by (simp only: run_adds_replicate [OF assms(1)] map_replicate append_Nil)
qed

lemma sint_overflow: "sint (word_of_nat (2 ^ 31) :: 32 word) = - 2147483648"
  by (simp add: signed_of_nat signed_take_bit_eq_take_bit_minus take_bit_eq_mod bit_iff_odd)

lemma dec_overflow: "sdec (- 2147483648) = ''-2147483648''"
  by (simp add: sdec_def dec.simps digit_def)

text \<open>
  C5, as stated. After \<open>2 ^ 31\<close> successful calls of \<open>add_file_entry\<close> the list has
  \<open>2 ^ 31\<close> records and the counter, a C \<open>int\<close>, reads \<open>- 2 ^ 31\<close>: \<open>output_json\<close> runs
  to its end and prints \<open>total_files\<close> -2147483648 before an array of \<open>2 ^ 31\<close> objects.
\<close>

theorem counter_overflows:
  "length (file_list (run_adds (replicate (2 ^ 31) call_a) init_prog)) = 2 ^ 31
   \<and> sint (file_count (run_adds (replicate (2 ^ 31) call_a) init_prog)) = - 2147483648
   \<and> output_json False sample_time 0 (run_adds (replicate (2 ^ 31) call_a) init_prog)
       = (False,
          (run_adds (replicate (2 ^ 31) call_a) init_prog)
            \<lparr>out := json_head_text ''-2147483648'' ''0''
                     @ joined json_sep_text
                         (replicate (2 ^ 31)
                            (json_record_text ''/r/a.txt'' ''a.txt'' ''11'' ''2''
                               ''1970-01-01T00:00:00Z'' ''33188'' ''false''))
                     @ json_foot_text\<rparr>)"
proof -
  have m: "c_malloc call_a"
    by (simp add: call_a_def)
  have c: "convertible sample_time (entry_of call_a)"
    by (simp add: convertible_def entry_of_samples mk_entry_def sample_time_0)
  have l: "length (file_list (run_adds (replicate (2 ^ 31) call_a) init_prog)) = 2 ^ 31"
    by (simp only: run_adds_replicate(1) [OF m] length_replicate)
  have s: "sint (file_count (run_adds (replicate (2 ^ 31) call_a) init_prog)) = - 2147483648"
    by (simp only: run_adds_replicate(2) [OF m] sint_overflow)
  have z: "sdec 0 = ''0''"
    by (simp add: sdec_def dec_samples)
  have o: "output_json False sample_time 0 (run_adds (replicate (2 ^ 31) call_a) init_prog)
       = (False,
          (run_adds (replicate (2 ^ 31) call_a) init_prog)
            \<lparr>out := json_head_text ''-2147483648'' ''0''
                     @ joined json_sep_text
                         (replicate (2 ^ 31)
                            (json_record_text ''/r/a.txt'' ''a.txt'' ''11'' ''2''
                               ''1970-01-01T00:00:00Z'' ''33188'' ''false''))
                     @ json_foot_text\<rparr>)"
    using output_json_replicate [OF m c, of False 0 "2 ^ 31"]
    by (simp only: sint_overflow dec_overflow z entry_of_samples json_text_samples)
  show ?thesis
    using l s o by blast
qed

text \<open>
  C5, amended. After any sequence of calls of \<open>add_file_entry\<close> on the empty store,
  whether \<open>malloc\<close> succeeded or not, the counter equals the length of the list as a
  32-bit value. When the list has fewer than \<open>2 ^ 31\<close> records, so that the C \<open>int\<close>
  holds their number, and the time of each can be converted, so that the emitter runs to
  its end, \<open>output_json\<close> prints the header with the length of the list as
  \<open>total_files\<close>, one object for each record of the list with a separator between two of
  them, and the footer. So does every run that ends with code 0 and prints JSON, for the
  list it gathered, when that has fewer than \<open>2 ^ 31\<close> records.
\<close>

theorem counter_is_length:
  "file_count (run_adds cs init_prog) = word_of_nat (length (file_list (run_adds cs init_prog)))
   \<and> (length (file_list (run_adds cs init_prog)) < 2 ^ 31
        \<and> list_all (convertible tm) (file_list (run_adds cs init_prog))
      \<longrightarrow> output_json sg tm now (run_adds cs init_prog)
            = (False,
               (run_adds cs init_prog)
                 \<lparr>out := json_head_text (dec (length (file_list (run_adds cs init_prog)))) (sdec now)
                          @ joined json_sep_text
                              (map (json_text_of sg tm) (file_list (run_adds cs init_prog)))
                          @ json_foot_text\<rparr>))
   \<and> (Opt_h \<notin> set opts \<and> fst (main ev argv0 opts args) = Exited 0
        \<and> chosen_format ''json'' opts \<noteq> ''csv''
        \<and> length (file_list (gathered ev (hd args))) < 2 ^ 31
      \<longrightarrow> out (snd (main ev argv0 opts args))
            = json_head_text (dec (length (file_list (gathered ev (hd args))))) (sdec (time_ans ev))
              @ joined json_sep_text
                  (map (json_text_of (abi_char_signed ev) (libc_strftime_gmtime ev))
                     (file_list (gathered ev (hd args))))
              @ json_foot_text)"
proof -
  let ?S = "run_adds cs init_prog"
  have c: "file_count ?S = word_of_nat (length (file_list ?S))"
    by (simp add: file_count_run_adds file_list_run_adds init_prog_def)
  have ou: "out ?S = []"
    by (simp add: out_run_adds init_prog_def)
  have a: "output_json sg tm now ?S
             = (False,
                ?S\<lparr>out := json_head_text (dec (length (file_list ?S))) (sdec now)
                          @ joined json_sep_text (map (json_text_of sg tm) (file_list ?S))
                          @ json_foot_text\<rparr>)"
    if l: "length (file_list ?S) < 2 ^ 31" and t: "list_all (convertible tm) (file_list ?S)"
    using output_json_complete [OF t, of sg now] sdec_small_count [OF l]
    by (simp add: ou c)
  have b: "out (snd (main ev argv0 opts args))
            = json_head_text (dec (length (file_list (gathered ev (hd args))))) (sdec (time_ans ev))
              @ joined json_sep_text
                  (map (json_text_of (abi_char_signed ev) (libc_strftime_gmtime ev))
                     (file_list (gathered ev (hd args))))
              @ json_foot_text"
    if h: "Opt_h \<notin> set opts" and z: "fst (main ev argv0 opts args) = Exited 0"
      and f: "chosen_format ''json'' opts \<noteq> ''csv''"
      and l: "length (file_list (gathered ev (hd args))) < 2 ^ 31"
  proof -
    have m: "main ev argv0 opts args
               = finish ev (chosen_format ''json'' opts) (gathered ev (hd args))"
      and t: "list_all (convertible (libc_strftime_gmtime ev)) (file_list (gathered ev (hd args)))"
      using main_reaches_finish [OF h z] by simp_all
    have e: "emitted (libc_strftime_gmtime ev) (file_list (gathered ev (hd args)))
               = file_list (gathered ev (hd args))"
      using t by (simp add: emitted_all)
    show ?thesis
      unfolding m finish_json_out [OF f] e
      using sdec_small_count [OF l] by (simp add: gathered_counter)
  qed
  show ?thesis
    using c a b by blast
qed

theorem counter_is_length_witness:
  "length (file_list (run_adds [call_a, call_lost, call_d] init_prog)) < 2 ^ 31
   \<and> list_all (convertible sample_time) (file_list (run_adds [call_a, call_lost, call_d] init_prog))
   \<and> length (file_list (run_adds [call_a, call_lost, call_d] init_prog)) = 2
   \<and> output_json False sample_time 0 (run_adds [call_a, call_lost, call_d] init_prog)
       = (False,
          (run_adds [call_a, call_lost, call_d] init_prog)
            \<lparr>out := json_head_text ''2'' ''0''
                     @ json_record_text ''/r/d'' ''d'' ''12'' ''4096'' ''1970-01-01T00:00:00Z''
                         ''16877'' ''true''
                     @ json_sep_text
                     @ json_record_text ''/r/a.txt'' ''a.txt'' ''11'' ''2'' ''1970-01-01T00:00:00Z''
                         ''33188'' ''false''
                     @ json_foot_text\<rparr>)
   \<and> Opt_h \<notin> set [] \<and> fst (main sample_env ''indexer'' [] [''/r'']) = Exited 0
   \<and> chosen_format ''json'' [] \<noteq> ''csv''
   \<and> length (file_list (gathered sample_env (hd [''/r'']))) < 2 ^ 31
   \<and> out (snd (main sample_env ''indexer'' [] [''/r'']))
       = json_head_text ''2'' ''0''
         @ json_record_text ''/r/d'' ''d'' ''12'' ''4096'' ''1970-01-01T00:00:00Z'' ''16877'' ''true''
         @ json_sep_text
         @ json_record_text ''/r/a.txt'' ''a.txt'' ''11'' ''2'' ''1970-01-01T00:00:00Z'' ''33188''
             ''false''
         @ json_foot_text"
proof -
  let ?S = "run_adds [call_a, call_lost, call_d] init_prog"
  have fl: "file_list ?S = [mk_entry ''/r/d'' ''d'' 12 4096 0 0x41ED,
                            mk_entry ''/r/a.txt'' ''a.txt'' 11 2 0 0x81A4]"
    by (simp add: file_list_run_adds init_prog_def entry_of_samples)
       (simp add: call_a_def call_d_def call_lost_def)
  have l: "length (file_list ?S) < 2 ^ 31" "length (file_list ?S) = 2"
    by (simp_all add: fl)
  have t: "list_all (convertible sample_time) (file_list ?S)"
    using convertible_gathered_sample by (simp add: fl gathered_sample)
  have h: "Opt_h \<notin> set []" "chosen_format ''json'' [] \<noteq> ''csv''"
    by simp_all
  have z: "fst (main sample_env ''indexer'' [] [''/r'']) = Exited 0"
    by (simp add: main_listing [OF sample_run(1,2,3)] fst_finish sample_env_time
          convertible_gathered_sample)
  have g: "length (file_list (gathered sample_env (hd [''/r'']))) < 2 ^ 31"
    by (simp add: gathered_sample)
  have e: "abi_char_signed sample_env = True" "time_ans sample_env = 0"
    by (simp_all add: sample_env_def)
  have s0: "sdec 0 = ''0''"
    by (simp add: sdec_def dec_samples)
  note th = counter_is_length [of "[call_a, call_lost, call_d]" sample_time False 0 "[]" sample_env
              "''indexer''" "[''/r'']"]
  have a: "output_json False sample_time 0 ?S
       = (False,
          ?S\<lparr>out := json_head_text ''2'' ''0''
                     @ json_record_text ''/r/d'' ''d'' ''12'' ''4096'' ''1970-01-01T00:00:00Z''
                         ''16877'' ''true''
                     @ json_sep_text
                     @ json_record_text ''/r/a.txt'' ''a.txt'' ''11'' ''2'' ''1970-01-01T00:00:00Z''
                         ''33188'' ''false''
                     @ json_foot_text\<rparr>)"
    using th [THEN conjunct2, THEN conjunct1, rule_format, OF conjI [OF l(1) t],
            unfolded fl list.map json_text_samples]
    by (simp add: dec_samples s0)
  have b: "out (snd (main sample_env ''indexer'' [] [''/r'']))
       = json_head_text ''2'' ''0''
         @ json_record_text ''/r/d'' ''d'' ''12'' ''4096'' ''1970-01-01T00:00:00Z'' ''16877'' ''true''
         @ json_sep_text
         @ json_record_text ''/r/a.txt'' ''a.txt'' ''11'' ''2'' ''1970-01-01T00:00:00Z'' ''33188''
             ''false''
         @ json_foot_text"
    using th [THEN conjunct2, THEN conjunct2, rule_format, OF conjI [OF h(1) conjI [OF z
                conjI [OF h(2) g]]],
            unfolded e sample_env_time list.sel gathered_sample list.map json_text_samples]
    by (simp add: dec_samples s0)
  show ?thesis
    using l t a h z g b by blast
qed

section \<open>Properties of the inode item decoder\<close>

lemma get_le64_Some: "off + 8 \<le> length buf \<Longrightarrow> \<exists>w. get_le64 buf off = Some w"
  by (simp add: get_le64_def)

lemma get_le32_Some: "off + 4 \<le> length buf \<Longrightarrow> \<exists>w. get_le32 buf off = Some w"
  by (simp add: get_le32_def)

text \<open>A read that ends before byte \<open>n\<close> does not depend on the bytes from \<open>n\<close> on.\<close>

lemma get_le64_take: "off + 8 \<le> n \<Longrightarrow> get_le64 (take n buf) off = get_le64 buf off"
  by (simp add: get_le64_def)

lemma get_le32_take: "off + 4 \<le> n \<Longrightarrow> get_le32 (take n buf) off = get_le32 buf off"
  by (simp add: get_le32_def)

text \<open>
  C9. \<open>process_inode_item\<close> compares \<open>item_len\<close> with the size of the fixed layout
  before it reads. When \<open>item_len\<close> is at least that size and the buffer holds
  \<open>item_len\<close> bytes, the three reads succeed, a record with the decoded size, time and mode
  is passed to \<open>add_file_entry\<close>, and the result is the same on the buffer cut to its first
  \<open>item_len\<close> bytes: every byte read lies within them. When \<open>item_len\<close> is smaller, the
  function returns the state unchanged for every buffer, the empty one included: it reads
  no field and adds no record.
\<close>

theorem inode_item_reads_in_bounds:
  "(12 \<le> ts \<and> sizeof_simple_inode_item ts \<le> unat item_len \<and> unat item_len \<le> length item_data \<longrightarrow>
      (\<exists>sz mt md. get_le64 item_data offsetof_size = Some sz
           \<and> get_le64 item_data (offsetof_mtime_sec ts) = Some mt
           \<and> get_le32 item_data offsetof_mode = Some md
           \<and> process_inode_item ts ok oid item_data item_len p s
               = Some (add_file_entry ok p (name_of_path p) oid sz mt md s))
      \<and> process_inode_item ts ok oid (take (unat item_len) item_data) item_len p s
          = process_inode_item ts ok oid item_data item_len p s)
   \<and> (unat item_len < sizeof_simple_inode_item ts \<longrightarrow>
        process_inode_item ts ok oid item_data item_len p s = Some s
        \<and> process_inode_item ts ok oid [] item_len p s = Some s)"
proof -
  have small: "process_inode_item ts ok oid buf item_len p s = Some s"
    if "unat item_len < sizeof_simple_inode_item ts" for buf
    using that by (simp add: process_inode_item_def)
  have big: "(\<exists>sz mt md. get_le64 item_data offsetof_size = Some sz
           \<and> get_le64 item_data (offsetof_mtime_sec ts) = Some mt
           \<and> get_le32 item_data offsetof_mode = Some md
           \<and> process_inode_item ts ok oid item_data item_len p s
               = Some (add_file_entry ok p (name_of_path p) oid sz mt md s))
      \<and> process_inode_item ts ok oid (take (unat item_len) item_data) item_len p s
          = process_inode_item ts ok oid item_data item_len p s"
    if t: "12 \<le> ts" and l: "sizeof_simple_inode_item ts \<le> unat item_len"
      and b: "unat item_len \<le> length item_data"
  proof -
    have n: "112 + 4 * ts \<le> unat item_len"
      using l by (simp add: sizeof_simple_inode_item_def)
    have o1: "offsetof_size + 8 \<le> unat item_len"
      using n by (simp add: offsetof_size_def)
    have o2: "offsetof_mtime_sec ts + 8 \<le> unat item_len"
      using n t by (simp add: offsetof_mtime_sec_def)
    have o3: "offsetof_mode + 4 \<le> unat item_len"
      using n by (simp add: offsetof_mode_def)
    obtain sz where sz: "get_le64 item_data offsetof_size = Some sz"
      using get_le64_Some [of offsetof_size item_data] o1 b by auto
    obtain mt where mt: "get_le64 item_data (offsetof_mtime_sec ts) = Some mt"
      using get_le64_Some [of "offsetof_mtime_sec ts" item_data] o2 b by auto
    obtain md where md: "get_le32 item_data offsetof_mode = Some md"
      using get_le32_Some [of offsetof_mode item_data] o3 b by auto
    have r: "process_inode_item ts ok oid item_data item_len p s
               = Some (add_file_entry ok p (name_of_path p) oid sz mt md s)"
      using l sz mt md by (simp add: process_inode_item_def)
    have c: "process_inode_item ts ok oid (take (unat item_len) item_data) item_len p s
               = process_inode_item ts ok oid item_data item_len p s"
      unfolding process_inode_item_def get_le64_take [OF o1] get_le64_take [OF o2]
        get_le32_take [OF o3]
      by (rule refl)
    show ?thesis
      using sz mt md r c by blast
  qed
  show ?thesis
    using small big by blast
qed

theorem inode_item_reads_in_bounds_witness:
  "(12::nat) \<le> 16 \<and> sizeof_simple_inode_item 16 \<le> unat (176 :: 32 word)
   \<and> unat (176 :: 32 word) \<le> length (replicate 176 (1 :: 8 word))
   \<and> process_inode_item 16 True 5 (replicate 176 1) 176 ''/r/a'' init_prog
       = Some (add_file_entry True ''/r/a'' ''a'' 5 0x0101010101010101 0x0101010101010101 0x01010101
                 init_prog)
   \<and> unat (100 :: 32 word) < sizeof_simple_inode_item 16
   \<and> process_inode_item 16 True 5 (replicate 100 1) 100 ''/r/a'' init_prog = Some init_prog"
proof -
  have h: "(12::nat) \<le> 16" "sizeof_simple_inode_item 16 \<le> unat (176 :: 32 word)"
    "unat (176 :: 32 word) \<le> length (replicate 176 (1 :: 8 word))"
    "unat (100 :: 32 word) < sizeof_simple_inode_item 16"
    by (simp_all add: sizeof_simple_inode_item_def)
  have g: "get_le64 (replicate 176 1) offsetof_size = Some 0x0101010101010101"
    "get_le64 (replicate 176 1) (offsetof_mtime_sec 16) = Some 0x0101010101010101"
    "get_le32 (replicate 176 1) offsetof_mode = Some 0x01010101"
    by (simp_all add: get_le64_def get_le32_def offsetof_size_def offsetof_mtime_sec_def
          offsetof_mode_def)
  have n: "name_of_path ''/r/a'' = ''a''"
    by (simp add: name_of_path_def)
  show ?thesis
    using inode_item_reads_in_bounds [of 16 176 "replicate 176 1" True 5 "''/r/a''" init_prog]
      inode_item_reads_in_bounds [of 16 100 "replicate 100 1" True 5 "''/r/a''" init_prog]
      h g n
    by auto
qed

section \<open>Properties of the two emitters\<close>

lemma concat_plain: "list_all (plain_byte sg) src \<Longrightarrow> concat (map (code_escape sg) src) = src"
  by (induction src) (simp_all add: plain_byte_def)

text \<open>
  A byte the escaper writes is never one it drops, and a byte it does not drop gives one
  byte when it is copied and two when it is escaped: a string that comes out as it went in
  holds only bytes that are copied.
\<close>

lemma code_escape_cases:
  "code_escape sg c = [] \<or> code_escape sg c = [c]
   \<or> code_escape sg c = [CHR 0x5C, CHR 0x22] \<or> code_escape sg c = [CHR 0x5C, CHR 0x5C]
   \<or> code_escape sg c = [CHR 0x5C, CHR ''n''] \<or> code_escape sg c = [CHR 0x5C, CHR ''r'']
   \<or> code_escape sg c = [CHR 0x5C, CHR ''t'']"
  by (simp add: code_escape_def)

lemma code_escape_special:
  "code_escape sg (CHR 0x5C) \<noteq> []" "code_escape sg (CHR 0x22) \<noteq> []"
  "code_escape sg (CHR ''n'') \<noteq> []" "code_escape sg (CHR ''r'') \<noteq> []"
  "code_escape sg (CHR ''t'') \<noteq> []"
  by (simp_all add: code_escape_def char_val_def)

lemma code_escape_output:
  assumes "x \<in> set (code_escape sg c)"
  shows "code_escape sg x \<noteq> []"
proof -
  consider "code_escape sg c = []" | "code_escape sg c = [c]"
    | "code_escape sg c = [CHR 0x5C, CHR 0x22]" | "code_escape sg c = [CHR 0x5C, CHR 0x5C]"
    | "code_escape sg c = [CHR 0x5C, CHR ''n'']" | "code_escape sg c = [CHR 0x5C, CHR ''r'']"
    | "code_escape sg c = [CHR 0x5C, CHR ''t'']"
    using code_escape_cases [of sg c] by blast
  then show ?thesis
  proof cases
    case 1
    then show ?thesis using assms by simp
  next
    case 2
    then have "x = c" using assms by simp
    then show ?thesis using 2 by simp
  next
    case 3
    then have "x = CHR 0x5C \<or> x = CHR 0x22" using assms by simp
    then show ?thesis using code_escape_special(1,2) [of sg] by blast
  next
    case 4
    then have "x = CHR 0x5C" using assms by simp
    then show ?thesis using code_escape_special(1) [of sg] by blast
  next
    case 5
    then have "x = CHR 0x5C \<or> x = CHR ''n''" using assms by simp
    then show ?thesis using code_escape_special(1,3) [of sg] by blast
  next
    case 6
    then have "x = CHR 0x5C \<or> x = CHR ''r''" using assms by simp
    then show ?thesis using code_escape_special(1,4) [of sg] by blast
  next
    case 7
    then have "x = CHR 0x5C \<or> x = CHR ''t''" using assms by simp
    then show ?thesis using code_escape_special(1,5) [of sg] by blast
  qed
qed

lemma concat_escape_output:
  assumes "x \<in> set (concat (map (code_escape sg) src))"
  shows "code_escape sg x \<noteq> []"
proof -
  obtain c where "x \<in> set (code_escape sg c)"
    using assms by auto
  then show ?thesis
    by (rule code_escape_output)
qed

lemma length_code_escape_kept:
  assumes "code_escape sg c \<noteq> []"
  shows "length (code_escape sg c) = (if plain_byte sg c then 1 else 2)"
proof (cases "code_escape sg c = [c]")
  case True
  then show ?thesis by (simp add: plain_byte_def)
next
  case False
  then have "length (code_escape sg c) = 2"
    using code_escape_cases [of sg c] assms by auto
  then show ?thesis
    using False by (simp add: plain_byte_def)
qed

lemma length_concat_escape:
  "\<forall>c\<in>set src. code_escape sg c \<noteq> [] \<Longrightarrow>
   length (concat (map (code_escape sg) src))
     = length src + length (filter (\<lambda>c. \<not> plain_byte sg c) src)"
  by (induction src) (simp_all add: length_code_escape_kept)

lemma concat_plain_iff:
  "(concat (map (code_escape sg) src) = src) = list_all (plain_byte sg) src"
proof
  assume e: "concat (map (code_escape sg) src) = src"
  have "\<forall>c\<in>set src. code_escape sg c \<noteq> []"
  proof
    fix c
    assume "c \<in> set src"
    then have "c \<in> set (concat (map (code_escape sg) src))"
      by (simp only: e)
    then show "code_escape sg c \<noteq> []"
      by (rule concat_escape_output)
  qed
  then have "length (concat (map (code_escape sg) src))
               = length src + length (filter (\<lambda>c. \<not> plain_byte sg c) src)"
    by (rule length_concat_escape)
  then have "filter (\<lambda>c. \<not> plain_byte sg c) src = []"
    by (simp add: e)
  then show "list_all (plain_byte sg) src"
    by (simp add: filter_empty_conv list_all_iff)
next
  assume "list_all (plain_byte sg) src"
  then show "concat (map (code_escape sg) src) = src"
    by (rule concat_plain)
qed

text \<open>
  A string short enough for the escaper's buffer is left as it is exactly when it holds only
  bytes the escaper copies.
\<close>

lemma json_escape_plain_iff:
  assumes "2 * length src + 2 \<le> dst_size" and "dst_size < 2 ^ 64"
  shows "(json_escape sg src dst_size = src) = list_all (plain_byte sg) src"
  using json_escape_fits [OF assms, of sg] concat_plain_iff [of sg src] by simp

text \<open>
  C3, as stated. For a file whose name holds a double quote, \<open>output_csv\<close> prints the
  stored path and name, with the bare quote, and \<open>output_json\<close> their escaped forms, with
  a backslash before the quote: the two path values and the two name values differ.
\<close>

theorem emitters_differ_on_quote:
  "output_csv sample_time (run_adds [call_quote] init_prog)
     = (False,
        (run_adds [call_quote] init_prog)
          \<lparr>out := csv_head_text
                   @ csv_record_text (''/r/a'' @ [CHR 0x22] @ ''b'') (''a'' @ [CHR 0x22] @ ''b'')
                       ''14'' ''0'' ''1970-01-01T00:00:00Z'' ''33188'' ''false''\<rparr>)
   \<and> output_json False sample_time 0 (run_adds [call_quote] init_prog)
     = (False,
        (run_adds [call_quote] init_prog)
          \<lparr>out := json_head_text ''1'' ''0''
                   @ json_record_text (''/r/a'' @ [CHR 0x5C, CHR 0x22] @ ''b'')
                       (''a'' @ [CHR 0x5C, CHR 0x22] @ ''b'')
                       ''14'' ''0'' ''1970-01-01T00:00:00Z'' ''33188'' ''false''
                   @ json_foot_text\<rparr>)
   \<and> ''/r/a'' @ [CHR 0x5C, CHR 0x22] @ ''b'' \<noteq> ''/r/a'' @ [CHR 0x22] @ ''b''
   \<and> ''a'' @ [CHR 0x5C, CHR 0x22] @ ''b'' \<noteq> ''a'' @ [CHR 0x22] @ ''b''"
proof -
  let ?S = "run_adds [call_quote] init_prog"
  let ?e = "mk_entry (''/r/a'' @ [CHR 0x22] @ ''b'') (''a'' @ [CHR 0x22] @ ''b'') 14 0 0 0x81A4"
  have fl: "file_list ?S = [?e]"
    by (simp add: file_list_run_adds call_quote_def init_prog_def entry_of_def)
  have fc: "file_count ?S = 1"
    by (simp add: file_count_run_adds call_quote_def init_prog_def)
  have ou: "out ?S = []"
    by (simp add: out_run_adds init_prog_def)
  have em: "emitted sample_time [?e] = [?e]"
    by (simp add: emitted_Cons convertible_def mk_entry_def sample_time_0 emitted_def)
  have j: "json_escape False (''/r/a'' @ [CHR 0x22] @ ''b'') 8192 = ''/r/a'' @ [CHR 0x5C, CHR 0x22] @ ''b''"
    "json_escape False (''a'' @ [CHR 0x22] @ ''b'') 512 = ''a'' @ [CHR 0x5C, CHR 0x22] @ ''b''"
    by (simp_all add: json_escape_def escape_case_def char_val_def size_t_sub_def)
  have ct: "csv_text_of sample_time ?e
              = csv_record_text (''/r/a'' @ [CHR 0x22] @ ''b'') (''a'' @ [CHR 0x22] @ ''b'')
                  ''14'' ''0'' ''1970-01-01T00:00:00Z'' ''33188'' ''false''"
    by (simp add: mk_entry_def strncpy_buf_def dec_samples sample_time_0 bool_str_def S_ISDIR_def)
  have jt: "json_text_of False sample_time ?e
              = json_record_text (''/r/a'' @ [CHR 0x5C, CHR 0x22] @ ''b'')
                  (''a'' @ [CHR 0x5C, CHR 0x22] @ ''b'')
                  ''14'' ''0'' ''1970-01-01T00:00:00Z'' ''33188'' ''false''"
    using j
    by (simp add: mk_entry_def strncpy_buf_def dec_samples sample_time_0 bool_str_def S_ISDIR_def)
  have c: "output_csv sample_time ?S
     = (False,
        ?S\<lparr>out := csv_head_text
                   @ csv_record_text (''/r/a'' @ [CHR 0x22] @ ''b'') (''a'' @ [CHR 0x22] @ ''b'')
                       ''14'' ''0'' ''1970-01-01T00:00:00Z'' ''33188'' ''false''\<rparr>)"
    using output_csv_text [of sample_time ?S, unfolded fl em list.map ct]
    by (simp add: ou)
  have s: "sdec (sint (1 :: 32 word)) = ''1''" "sdec 0 = ''0''"
    by (simp_all add: sdec_def dec_samples)
  have o: "output_json False sample_time 0 ?S
     = (False,
        ?S\<lparr>out := json_head_text ''1'' ''0''
                   @ json_record_text (''/r/a'' @ [CHR 0x5C, CHR 0x22] @ ''b'')
                       (''a'' @ [CHR 0x5C, CHR 0x22] @ ''b'')
                       ''14'' ''0'' ''1970-01-01T00:00:00Z'' ''33188'' ''false''
                   @ json_foot_text\<rparr>)"
    using output_json_text [of False sample_time 0 ?S, unfolded fl em list.map jt fc s]
    by (simp add: ou)
  have d: "''/r/a'' @ [CHR 0x5C, CHR 0x22] @ ''b'' \<noteq> ''/r/a'' @ [CHR 0x22] @ ''b''"
    "''a'' @ [CHR 0x5C, CHR 0x22] @ ''b'' \<noteq> ''a'' @ [CHR 0x22] @ ''b''"
    by simp_all
  show ?thesis
    using c o d by blast
qed

text \<open>
  C3, amended. For every store, both emitters emit the same records of the list, in the
  order of the list: all of them when the time of each can be converted, else those before
  the first whose time cannot, where either emitter is killed. \<open>output_csv\<close> prints the
  header row and one row per record emitted, \<open>output_json\<close> the header, one object per
  record emitted with a separator between two of them, and the footer. The row and the
  object of a record hold the same inode, size and mode in decimal, the same time text and
  the same \<open>is_dir\<close>, derived from the mode by \<open>S_ISDIR\<close>. The path and the name are not
  treated alike: the row holds the stored strings, the object their escaped forms. For a
  string that fits its array in \<open>struct file_entry\<close>, as every stored string does, the
  two are equal exactly when the string holds only bytes the escaper copies.
\<close>

theorem emitters_agree_up_to_escaping:
  "output_csv tm s
     = (emitted tm (file_list s) \<noteq> file_list s,
        s\<lparr>out := out s @ csv_head_text
                 @ concat (map (\<lambda>e. csv_record_text (path e) (name e)
                                       (dec (unat (inode e))) (dec (unat (size_e e)))
                                       (the (timestamp_to_iso tm (mtime e)))
                                       (dec (unat (mode e))) (bool_str (S_ISDIR (mode e))))
                             (emitted tm (file_list s)))\<rparr>)
   \<and> output_json sg tm now s
     = (emitted tm (file_list s) \<noteq> file_list s,
        s\<lparr>out := out s @ json_head_text (sdec (sint (file_count s))) (sdec now)
                 @ joined json_sep_text
                     (map (\<lambda>e. json_record_text (json_escape sg (path e) 8192)
                                  (json_escape sg (name e) 512)
                                  (dec (unat (inode e))) (dec (unat (size_e e)))
                                  (the (timestamp_to_iso tm (mtime e)))
                                  (dec (unat (mode e))) (bool_str (S_ISDIR (mode e))))
                        (emitted tm (file_list s)))
                 @ (if emitted tm (file_list s) \<noteq> file_list s
                    then (if emitted tm (file_list s) = [] then [] else json_sep_text)
                    else json_foot_text)\<rparr>)
   \<and> (length p < 4096 \<longrightarrow> (json_escape sg p 8192 = p) = list_all (plain_byte sg) p)
   \<and> (length n < 256 \<longrightarrow> (json_escape sg n 512 = n) = list_all (plain_byte sg) n)
   \<and> length (path (mk_entry p' n' i sz mt md)) < 4096
   \<and> length (name (mk_entry p' n' i sz mt md)) < 256"
proof -
  have p: "(json_escape sg p 8192 = p) = list_all (plain_byte sg) p" if "length p < 4096"
    using that by (intro json_escape_plain_iff) simp_all
  have n: "(json_escape sg n 512 = n) = list_all (plain_byte sg) n" if "length n < 256"
    using that by (intro json_escape_plain_iff) simp_all
  have l: "length (path (mk_entry p' n' i sz mt md)) < 4096"
    "length (name (mk_entry p' n' i sz mt md)) < 256"
    by (simp_all add: mk_entry_def strncpy_buf_def)
  show ?thesis
    using output_csv_text [of tm s] output_json_text [of sg tm now s] p n l by blast
qed

theorem emitters_agree_up_to_escaping_witness:
  "length ''/r/d'' < 4096 \<and> list_all (plain_byte True) ''/r/d''
   \<and> json_escape True ''/r/d'' 8192 = ''/r/d''
   \<and> length ''d'' < 256 \<and> list_all (plain_byte True) ''d''
   \<and> json_escape True ''d'' 512 = ''d''
   \<and> output_csv sample_time (run_adds [call_a, call_d] init_prog)
       = (False,
          (run_adds [call_a, call_d] init_prog)
            \<lparr>out := csv_head_text
                     @ csv_record_text ''/r/d'' ''d'' ''12'' ''4096'' ''1970-01-01T00:00:00Z''
                         ''16877'' ''true''
                     @ csv_record_text ''/r/a.txt'' ''a.txt'' ''11'' ''2'' ''1970-01-01T00:00:00Z''
                         ''33188'' ''false''\<rparr>)
   \<and> output_json True sample_time 0 (run_adds [call_a, call_d] init_prog)
       = (False,
          (run_adds [call_a, call_d] init_prog)
            \<lparr>out := json_head_text ''2'' ''0''
                     @ json_record_text ''/r/d'' ''d'' ''12'' ''4096'' ''1970-01-01T00:00:00Z''
                         ''16877'' ''true''
                     @ json_sep_text
                     @ json_record_text ''/r/a.txt'' ''a.txt'' ''11'' ''2'' ''1970-01-01T00:00:00Z''
                         ''33188'' ''false''
                     @ json_foot_text\<rparr>)"
proof -
  let ?S = "run_adds [call_a, call_d] init_prog"
  note fl = run_adds_sample(1) and fc = run_adds_sample(2) and ou = run_adds_sample(3)
    and em = emitted_sample
  have s: "sdec (sint (2 :: 32 word)) = ''2''" "sdec 0 = ''0''"
    by (simp_all add: sdec_def dec_samples)
  have ln: "length ''/r/d'' < 4096" "length ''d'' < 256"
    by simp_all
  have pl: "list_all (plain_byte True) ''/r/d''" "list_all (plain_byte True) ''d''"
    by (simp_all add: plain_byte_def code_escape_def char_val_def)
  note th = emitters_agree_up_to_escaping [of sample_time ?S True 0 "''/r/d''" "''d''"]
  have c: "output_csv sample_time ?S
       = (False,
          ?S\<lparr>out := csv_head_text
                     @ csv_record_text ''/r/d'' ''d'' ''12'' ''4096'' ''1970-01-01T00:00:00Z''
                         ''16877'' ''true''
                     @ csv_record_text ''/r/a.txt'' ''a.txt'' ''11'' ''2'' ''1970-01-01T00:00:00Z''
                         ''33188'' ''false''\<rparr>)"
    using th [THEN conjunct1, unfolded fl em list.map csv_text_samples]
    by (simp add: ou)
  have j: "output_json True sample_time 0 ?S
       = (False,
          ?S\<lparr>out := json_head_text ''2'' ''0''
                     @ json_record_text ''/r/d'' ''d'' ''12'' ''4096'' ''1970-01-01T00:00:00Z''
                         ''16877'' ''true''
                     @ json_sep_text
                     @ json_record_text ''/r/a.txt'' ''a.txt'' ''11'' ''2'' ''1970-01-01T00:00:00Z''
                         ''33188'' ''false''
                     @ json_foot_text\<rparr>)"
    using th [THEN conjunct2, THEN conjunct1, unfolded fl em list.map json_text_samples fc s]
    by (simp add: ou)
  have p: "json_escape True ''/r/d'' 8192 = ''/r/d''"
    using th [THEN conjunct2, THEN conjunct2, THEN conjunct1, rule_format, OF ln(1)] pl(1)
    by blast
  have n: "json_escape True ''d'' 512 = ''d''"
    using th [THEN conjunct2, THEN conjunct2, THEN conjunct2, THEN conjunct1, rule_format,
            OF ln(2)] pl(2)
    by blast
  show ?thesis
    using ln pl p n c j by blast
qed

end
